theory Spec2Isabelle
  imports Main "HOL-Library.Word"
begin

unbundle bit_operations_syntax

section \<open>Values of the standard library that the Context wraps\<close>

text \<open>
  \<open>http.Header\<close> and \<open>url.Values\<close> are both \<open>map[string][]string\<close>. The keys are taken
  in their canonical form, as the server stores them; \<open>Get\<close> returns the first value of
  a key, or the empty string.
\<close>

type_synonym http_Header = "string \<rightharpoonup> string list"

definition Header_Get :: "http_Header \<Rightarrow> string \<Rightarrow> string" where
  "Header_Get h key = (case h key of None \<Rightarrow> [] | Some [] \<Rightarrow> [] | Some (v # vs) \<Rightarrow> v)"

definition Header_Set :: "http_Header \<Rightarrow> string \<Rightarrow> string \<Rightarrow> http_Header" where
  "Header_Set h key v = h(key \<mapsto> [v])"

definition Header_Add :: "http_Header \<Rightarrow> string \<Rightarrow> string \<Rightarrow> http_Header" where
  "Header_Add h key v = h(key \<mapsto> (case h key of None \<Rightarrow> [] | Some vs \<Rightarrow> vs) @ [v])"

text \<open>
  \<open>http.Cookie\<close>, with the fields the CSRF middleware writes. \<open>Expires\<close> is a point in
  time, in nanoseconds.
\<close>

record Cookie =
  cookie_Name :: string
  cookie_Value :: string
  cookie_Path :: string
  cookie_Domain :: string
  cookie_Expires :: int
  cookie_Secure :: bool
  cookie_HttpOnly :: bool

text \<open>
  The response writer: its header map, whether a status line has been written and
  which, the body bytes written so far, and the cookies handed to it. The first
  \<open>WriteHeader\<close> wins; \<open>Write\<close> writes status 200 first when none was written. A write
  is taken to succeed (a transport failure is outside the model).
\<close>

record response =
  w_Header :: http_Header
  committed :: bool
  status :: int
  body :: string
  set_cookies :: "Cookie list"

definition WriteHeader :: "response \<Rightarrow> int \<Rightarrow> response" where
  "WriteHeader rw code = (if committed rw then rw else rw\<lparr>committed := True, status := code\<rparr>)"

definition Write :: "response \<Rightarrow> string \<Rightarrow> response" where
  "Write rw b = (let rw1 = WriteHeader rw 200 in rw1\<lparr>body := body rw1 @ b\<rparr>)"

text \<open>
  The request: method, URL path and parsed query, header map, parsed form values,
  cookies in the order received, and the strings the access logger prints.
\<close>

record request =
  Method :: string
  URL_Path :: string
  URL_Query :: http_Header
  r_Header :: http_Header
  Form :: http_Header
  Cookies :: "(string \<times> string) list"
  Host :: string
  Proto :: string
  RemoteAddr :: string

datatype error = ErrInvalidRedirectCode | Error string

datatype severity = Trace | Info | Warn

section \<open>The Context and the handler chain\<close>

text \<open>
  \<open>Invoked n i\<close> records that the execution of \<open>Next\<close> number \<open>n\<close> called the handler at
  index \<open>i\<close>; \<open>Failed n i\<close> that this call returned a non-nil error to it. Executions of
  \<open>Next\<close> on one Context are numbered in the order they are entered.
\<close>

datatype event = Invoked nat int | Failed nat int

text \<open>
  The struct \<open>context\<close>, named \<open>Context\<close> here and its field \<open>method\<close> named \<open>method'\<close>,
  as both words are reserved. The fields \<open>code\<close>, \<open>params\<close>, \<open>noRewrite\<close> and \<open>lock\<close> are
  read by no operation below and are left out; \<open>handlers\<close> is fixed once the chain
  starts and is passed beside the context. The cursor \<open>index\<close> is an integer without
  bound: it grows by one per call of \<open>Next\<close> and per handler called, and the 64 bits of
  an \<open>int\<close> are out of its reach. Values of the store are strings (the only values the
  middlewares here put). The last four fields are not in the struct, they record what
  a run does: \<open>panicked\<close> says that a panic is unwinding the chain, \<open>nexts\<close> counts the
  executions of \<open>Next\<close> entered so far, \<open>trace\<close> lists the handler calls made, and \<open>sink\<close>
  the lines handed to the logging backend.
\<close>

record Context =
  w :: response
  r :: request
  path :: string
  method' :: string
  queryList :: "http_Header option"
  store :: "string \<rightharpoonup> string"
  index :: int
  intercept :: bool
  panicked :: bool
  nexts :: nat
  trace :: "event list"
  sink :: "(severity \<times> string) list"

definition newContext :: "response \<Rightarrow> request \<Rightarrow> Context" where
  "newContext rw rq =
     \<lparr>w = rw, r = rq, path = URL_Path rq, method' = Method rq, queryList = None,
      store = Map.empty, index = -1, intercept = False,
      panicked = False, nexts = 0, trace = [], sink = []\<rparr>"

text \<open>
  What a handler does with the context it is given: it returns an error or nil
  (\<open>Done\<close>), or it calls \<open>Next()\<close> and goes on from the context that call leaves
  (\<open>CallNext\<close>), or it panics. Each constructor carries the context as the handler has
  changed it up to that point.
\<close>

datatype hres =
    Done "error option" Context
  | CallNext Context "Context \<Rightarrow> hres"
  | Panic Context

record HandlerFunc =
  Func :: "Context \<Rightarrow> hres"
  IsMiddleware :: bool

text \<open>
  A handler reaches the context through the interface \<open>Context\<close> only, which has no
  operation on the cursor or the flag: of the context a handler hands back, the chain
  keeps everything except these fields.
\<close>

definition adopt :: "Context \<Rightarrow> Context \<Rightarrow> Context" where
  "adopt c' c = c'\<lparr>index := index c, intercept := intercept c, panicked := panicked c,
                  nexts := nexts c, trace := trace c\<rparr>"

text \<open>
  \<open>Next\<close> increments the cursor and enters the loop \<open>for ; c.index < s; c.index++\<close>,
  which is \<open>for_loop\<close>; its argument \<open>n\<close> is the number of this execution of \<open>Next\<close>. The
  loop leaves at \<open>break\<close> when \<open>intercept\<close> is set, indexing \<open>handlers\<close> below 0 panics, and
  a non-nil error of the handler sets \<open>intercept\<close>. \<open>invoke\<close> runs what the handler does:
  where the handler calls \<open>Next()\<close>, the chain runs \<open>Next\<close> on the context the handler
  has reached and the handler goes on from the result. A panic unwinds every loop
  and handler on its way.
\<close>

function Next :: "HandlerFunc list \<Rightarrow> Context \<Rightarrow> Context"
  and for_loop :: "HandlerFunc list \<Rightarrow> nat \<Rightarrow> Context \<Rightarrow> Context"
  and invoke :: "HandlerFunc list \<Rightarrow> Context \<Rightarrow> hres \<Rightarrow> error option \<times> Context"
where
  "Next hs c = for_loop hs (nexts c) (c\<lparr>index := index c + 1, nexts := Suc (nexts c)\<rparr>)"
| "for_loop hs n c =
     (if index c < int (length hs) then
        if intercept c then c
        else if index c < 0 then c\<lparr>panicked := True\<rparr>
        else
          let c0 = c\<lparr>trace := trace c @ [Invoked n (index c)]\<rparr> in
          (case invoke hs c0 (Func (hs ! nat (index c)) c0) of
             (err, c1) \<Rightarrow>
               if panicked c1 then c1
               else
                 let c2 = (if err \<noteq> None
                           then c1\<lparr>intercept := True, trace := trace c1 @ [Failed n (index c)]\<rparr>
                           else c1)
                 in for_loop hs n (c2\<lparr>index := index c2 + 1\<rparr>))
      else c)"
| "invoke hs c (Done err c') = (err, adopt c' c)"
| "invoke hs c (Panic c') = (None, (adopt c' c)\<lparr>panicked := True\<rparr>)"
| "invoke hs c (CallNext c' k) =
     (let c1 = Next hs (adopt c' c) in
      if panicked c1 then (None, c1) else invoke hs c1 (k c1))"
  by pat_completeness auto

text \<open>
  Termination of the chain: the cursor never goes back, a call of \<open>Next\<close> moves it
  forward, and a handler calls \<open>Next\<close> finitely often before it returns.
\<close>

lemma adopt_simps [simp]:
  "index (adopt c' c) = index c" "intercept (adopt c' c) = intercept c"
  "panicked (adopt c' c) = panicked c" "nexts (adopt c' c) = nexts c"
  "trace (adopt c' c) = trace c"
  by (simp_all add: adopt_def)

lemma index_mono_dom:
  "Next_for_loop_invoke_dom (Inl (hs, c)) \<Longrightarrow> index c \<le> index (Next hs c)"
  "Next_for_loop_invoke_dom (Inr (Inl (hs, n, c))) \<Longrightarrow> index c \<le> index (for_loop hs n c)"
  "Next_for_loop_invoke_dom (Inr (Inr (hs, c, h))) \<Longrightarrow> index c \<le> index (snd (invoke hs c h))"
proof (induct rule: Next_for_loop_invoke.pinduct)
  case (1 hs c)
  then show ?case by (simp add: Next.psimps)
next
  case (2 hs n c)
  show ?case
  proof (cases "index c < int (length hs) \<and> \<not> intercept c \<and> \<not> index c < 0")
    case False
    then show ?thesis using "2.hyps"(1) by (auto simp: for_loop.psimps)
  next
    case True
    define c0 where "c0 = c\<lparr>trace := trace c @ [Invoked n (index c)]\<rparr>"
    obtain err c1 where inv: "(err, c1) = invoke hs c0 (Func (hs ! nat (index c)) c0)"
      by (metis surj_pair)
    have le1: "index c \<le> index c1"
      using "2.hyps"(2) [of c0] True inv [symmetric] by (simp add: c0_def)
    show ?thesis
    proof (cases "panicked c1")
      case True
      with \<open>index c < int (length hs) \<and> \<not> intercept c \<and> \<not> index c < 0\<close> le1 inv [symmetric]
      show ?thesis using "2.hyps"(1) by (simp add: for_loop.psimps c0_def [symmetric])
    next
      case False
      define c2 where "c2 = (if err \<noteq> None
            then c1\<lparr>intercept := True, trace := trace c1 @ [Failed n (index c)]\<rparr> else c1)"
      have "index (c2\<lparr>index := index c2 + 1\<rparr>) \<le> index (for_loop hs n (c2\<lparr>index := index c2 + 1\<rparr>))"
        using "2.hyps"(3) [of c0 err c1 c2] True inv False by (simp add: c0_def c2_def)
      moreover have "index c2 = index c1" by (simp add: c2_def)
      moreover have "for_loop hs n c = for_loop hs n (c2\<lparr>index := index c2 + 1\<rparr>)"
        using "2.hyps"(1) True inv [symmetric] False
        by (auto simp: for_loop.psimps c0_def [symmetric] c2_def)
      ultimately show ?thesis using le1 by simp
    qed
  qed
next
  case (3 hs c err c')
  then show ?case by (simp add: invoke.psimps)
next
  case (4 hs c c')
  then show ?case by (simp add: invoke.psimps)
next
  case (5 hs c c' k)
  then show ?case by (subst invoke.psimps) (auto simp: Let_def)
qed

definition hsub :: "(hres \<times> hres) set" where
  "hsub = {(h, h'). \<exists>c k x. h' = CallNext c k \<and> h = k x}"

lemma wf_hsub: "wf hsub"
proof (rule wfUNIVI)
  fix P :: "hres \<Rightarrow> bool" and h
  assume step: "\<forall>x. (\<forall>y. (y, x) \<in> hsub \<longrightarrow> P y) \<longrightarrow> P x"
  show "P h"
  proof (induction h)
    case (Done e c)
    show ?case using step by (auto simp: hsub_def)
  next
    case (CallNext c k)
    have "\<forall>y. (y, CallNext c k) \<in> hsub \<longrightarrow> P y"
      using CallNext.IH by (auto simp: hsub_def)
    then show ?case using step by blast
  next
    case (Panic c)
    show ?case using step by (auto simp: hsub_def)
  qed
qed

definition chain_rank :: "(HandlerFunc list \<times> Context) + (HandlerFunc list \<times> nat \<times> Context) + (HandlerFunc list \<times> Context \<times> hres)
    \<Rightarrow> nat \<times> nat \<times> hres" where
  "chain_rank a = (case a of
      Inl (hs, c) \<Rightarrow> (nat (int (length hs) - index c), 1, Panic c)
    | Inr (Inl (hs, n, c)) \<Rightarrow> (nat (int (length hs) - index c + 1), 0, Panic c)
    | Inr (Inr (hs, c, h)) \<Rightarrow> (nat (int (length hs) - index c), 2, h))"

termination Next
proof (relation "inv_image (less_than <*lex*> less_than <*lex*> hsub) chain_rank", goal_cases)
  case 1
  show ?case by (intro wf_inv_image wf_lex_prod wf_less_than wf_hsub)
next
  case (2 hs c)
  show ?case by (simp add: chain_rank_def)
next
  case (3 hs n c x)
  then show ?case by (simp add: chain_rank_def)
next
  case (4 hs n c x xa y xb)
  then show ?case using index_mono_dom(3) [of hs x "Func (hs ! nat (index c)) x"]
    by (auto simp: chain_rank_def split: if_splits dest: arg_cong [where f=snd])
next
  case (5 hs c c' k)
  show ?case by (simp add: chain_rank_def)
next
  case (6 hs c c' k x)
  then show ?case using index_mono_dom(1) [of hs "adopt c' c"]
    by (auto simp: chain_rank_def hsub_def)
qed

section \<open>Operations of the Context\<close>

text \<open>
  Modelled from the spec: the header names and the content type, constants of the
  package that are declared outside the source files embedded here. They carry the
  names the specification uses (\<open>X-Forwarded-Proto\<close>, \<open>X-Forwarded-Protocol\<close>,
  \<open>X-Forwarded-Ssl\<close>, \<open>X-Url-Scheme\<close>, \<open>Vary: Cookie\<close>, \<open>header:X-CSRF-Token\<close>); the
  specification does not name \<open>Content-Type\<close>, \<open>Content-Length\<close> and the plain-text
  content type, which have their standard values, and no property below depends on
  them. A header map of the model is keyed by the name as the code writes it: the
  library folds every spelling of a name to one canonical spelling before each
  access, and the code reaches the maps through \<open>Get\<close>, \<open>Set\<close> and \<open>Add\<close> only.
\<close>

definition HeaderContentType :: string where "HeaderContentType = ''Content-Type''"

definition HeaderContentLength :: string where "HeaderContentLength = ''Content-Length''"

definition HeaderVary :: string where "HeaderVary = ''Vary''"

definition HeaderCookie :: string where "HeaderCookie = ''Cookie''"

definition HeaderXCSRFToken :: string where "HeaderXCSRFToken = ''X-CSRF-Token''"

definition HeaderXForwardedProto :: string where "HeaderXForwardedProto = ''X-Forwarded-Proto''"

definition HeaderXForwardedProtocol :: string where "HeaderXForwardedProtocol = ''X-Forwarded-Protocol''"

definition HeaderXForwardedSsl :: string where "HeaderXForwardedSsl = ''X-Forwarded-Ssl''"

definition HeaderXUrlScheme :: string where "HeaderXUrlScheme = ''X-Url-Scheme''"

definition MIMETextPlainCharsetUTF8 :: string where
  "MIMETextPlainCharsetUTF8 = ''text/plain; charset=UTF-8''"

definition Put :: "Context \<Rightarrow> string \<Rightarrow> string \<Rightarrow> Context" where
  "Put c key values = c\<lparr>store := (store c)(key \<mapsto> values)\<rparr>"


definition GetMethod :: "Context \<Rightarrow> string" where
  "GetMethod c = Method (r c)"

definition writeContentType :: "Context \<Rightarrow> string \<Rightarrow> Context" where
  "writeContentType c v =
     (let header = w_Header (w c) in
      if Header_Get header HeaderContentType = []
      then c\<lparr>w := (w c)\<lparr>w_Header := Header_Set header HeaderContentType v\<rparr>\<rparr>
      else c)"

definition Blob :: "Context \<Rightarrow> int \<Rightarrow> string \<Rightarrow> string \<Rightarrow> error option \<times> Context" where
  "Blob c code contentType b =
     (let c1 = writeContentType c contentType;
          c2 = c1\<lparr>w := WriteHeader (w c1) code\<rparr>
      in (None, c2\<lparr>w := Write (w c2) b\<rparr>))"

definition String :: "Context \<Rightarrow> int \<Rightarrow> string \<Rightarrow> error option \<times> Context" where
  "String c code s = Blob c code MIMETextPlainCharsetUTF8 s"

definition Status :: "Context \<Rightarrow> int \<Rightarrow> Context" where
  "Status c code = c\<lparr>w := WriteHeader (w c) code\<rparr>"

definition SetHeader :: "Context \<Rightarrow> string \<Rightarrow> string \<Rightarrow> Context" where
  "SetHeader c key v = c\<lparr>w := (w c)\<lparr>w_Header := Header_Set (w_Header (w c)) key v\<rparr>\<rparr>"

definition AddHeader :: "Context \<Rightarrow> string \<Rightarrow> string \<Rightarrow> Context" where
  "AddHeader c key v = c\<lparr>w := (w c)\<lparr>w_Header := Header_Add (w_Header (w c)) key v\<rparr>\<rparr>"

text \<open>\<open>GetHeader\<close> reads the header map of the response writer, as the source has it.\<close>

definition GetHeader :: "Context \<Rightarrow> string \<Rightarrow> string" where
  "GetHeader c key = Header_Get (w_Header (w c)) key"

definition QueryParam :: "Context \<Rightarrow> string \<Rightarrow> string \<times> Context" where
  "QueryParam c name =
     (case queryList c of
        None \<Rightarrow> (Header_Get (URL_Query (r c)) name, c\<lparr>queryList := Some (URL_Query (r c))\<rparr>)
      | Some q \<Rightarrow> (Header_Get q name, c))"

definition FormValue :: "Context \<Rightarrow> string \<Rightarrow> string" where
  "FormValue c name = Header_Get (Form (r c)) name"

definition Scheme :: "Context \<Rightarrow> string" where
  "Scheme c =
     (let scheme = ''http'' in
      if Header_Get (r_Header (r c)) HeaderXForwardedProto \<noteq> []
      then Header_Get (r_Header (r c)) HeaderXForwardedProto
      else if Header_Get (r_Header (r c)) HeaderXForwardedProtocol \<noteq> []
      then Header_Get (r_Header (r c)) HeaderXForwardedProtocol
      else if Header_Get (r_Header (r c)) HeaderXForwardedSsl = ''on''
      then ''https''
      else if Header_Get (r_Header (r c)) HeaderXUrlScheme \<noteq> []
      then Header_Get (r_Header (r c)) HeaderXUrlScheme
      else scheme)"

definition Redirect :: "Context \<Rightarrow> int \<Rightarrow> string \<Rightarrow> error option \<times> Context" where
  "Redirect c code uri =
     (if code < 300 \<or> code > 308 then (Some ErrInvalidRedirectCode, c)
      else
        let c1 = c\<lparr>r := (r c)\<lparr>r_Header := Header_Set (r_Header (r c)) ''Location'' uri\<rparr>\<rparr>
        in (None, c1\<lparr>w := WriteHeader (w c1) code\<rparr>))"

section \<open>The CSRF middleware\<close>

text \<open>
  What a constructor of a middleware does when it is called at start-up: it returns
  its handler, or a run-time panic unwinds it, or it ends the process
  (\<open>log.Fatalf\<close>).
\<close>

datatype 'a outcome = Returns 'a | RuntimePanic | FatalExit string

record CSRFConfig =
  TokenLength :: "8 word"
  TokenLookup :: string
  Key :: string
  CookieName :: string
  CookieDomain :: string
  CookiePath :: string
  CookieMaxAge :: "64 word"
  CookieSecure :: bool
  CookieHTTPOnly :: bool

definition CSRFDefaultConfig :: CSRFConfig where
  "CSRFDefaultConfig =
     \<lparr>TokenLength = 16, TokenLookup = ''header:'' @ HeaderXCSRFToken, Key = ''csrf'',
      CookieName = ''_csrf'', CookieDomain = [], CookiePath = [], CookieMaxAge = 28800,
      CookieSecure = False, CookieHTTPOnly = False\<rparr>"

text \<open>\<open>strings.Split(s, ":")\<close>: the pieces of \<open>s\<close> between the separators, at least one.\<close>

fun Split :: "string \<Rightarrow> char \<Rightarrow> string list" where
  "Split [] sep = [[]]"
| "Split (x # xs) sep =
     (if x = sep then [] # Split xs sep
      else (case Split xs sep of [] \<Rightarrow> [[x]] | y # ys \<Rightarrow> (x # y) # ys))"

text \<open>
  \<open>subtle.ConstantTimeCompare\<close>: 0 when the lengths differ; otherwise the bytes are
  combined pairwise with XOR, the results are collected with OR, and
  \<open>ConstantTimeByteEq\<close> turns the collected byte into 1 (it is zero) or 0.
\<close>

definition byte_of :: "char \<Rightarrow> 8 word" where
  "byte_of ch = of_nat (of_char ch)"

definition ConstantTimeByteEq :: "8 word \<Rightarrow> 8 word \<Rightarrow> int" where
  "ConstantTimeByteEq x y = uint (drop_bit 31 ((ucast (x XOR y) :: 32 word) - 1))"

fun xor_fold :: "8 word \<Rightarrow> string \<Rightarrow> string \<Rightarrow> 8 word" where
  "xor_fold v (a # x) (b # y) = xor_fold (v OR (byte_of a XOR byte_of b)) x y"
| "xor_fold v x y = v"

definition ConstantTimeCompare :: "string \<Rightarrow> string \<Rightarrow> int" where
  "ConstantTimeCompare x y =
     (if length x \<noteq> length y then 0 else ConstantTimeByteEq (xor_fold 0 x y) 0)"

definition validateCSRFToken :: "string \<Rightarrow> string \<Rightarrow> bool" where
  "validateCSRFToken token clientToken \<longleftrightarrow> ConstantTimeCompare token clientToken = 1"

text \<open>
  A fresh token: \<open>uuid.New()\<close> gives 16 random bytes, \<open>String()\<close> prints them as
  lower-case hexadecimal digits in groups of 4, 2, 2, 2 and 6 bytes joined by \<open>-\<close>, and
  \<open>strings.Replace(_, "-", "", -1)\<close> removes every \<open>-\<close>. The random bytes are an input
  of the handler.
\<close>

definition hexdigit :: "nat \<Rightarrow> char" where
  "hexdigit n = ''0123456789abcdef'' ! (n mod 16)"

definition hex_byte :: "8 word \<Rightarrow> string" where
  "hex_byte b = [hexdigit (unat b div 16), hexdigit (unat b mod 16)]"

definition hex_Encode :: "8 word list \<Rightarrow> string" where
  "hex_Encode bs = concat (map hex_byte bs)"

definition uuid_String :: "8 word list \<Rightarrow> string" where
  "uuid_String u =
     hex_Encode (take 4 u) @ ''-'' @ hex_Encode (take 2 (drop 4 u)) @ ''-'' @
     hex_Encode (take 2 (drop 6 u)) @ ''-'' @ hex_Encode (take 2 (drop 8 u)) @ ''-'' @
     hex_Encode (drop 10 u)"

definition Replace_all_dashes :: "string \<Rightarrow> string" where
  "Replace_all_dashes s = filter (\<lambda>ch. ch \<noteq> CHR ''-'') s"

type_synonym csrfTokenCreator = "Context \<Rightarrow> (string + string) \<times> Context"

definition csrfTokenFromHeader :: "string \<Rightarrow> csrfTokenCreator" where
  "csrfTokenFromHeader header c =
     (let token = GetHeader c header in
      if token = [] then (Inl ''missing csrf token in the header string'', c)
      else (Inr token, c))"

definition csrfTokenFromQuery :: "string \<Rightarrow> csrfTokenCreator" where
  "csrfTokenFromQuery param c =
     (case QueryParam c param of (token, c1) \<Rightarrow>
        if token = [] then (Inl ''missing csrf token in the query string'', c1)
        else (Inr token, c1))"

definition csrfTokenFromForm :: "string \<Rightarrow> csrfTokenCreator" where
  "csrfTokenFromForm param c =
     (let token = FormValue c param in
      if token = [] then (Inl ''missing csrf token in the form string'', c)
      else (Inr token, c))"

text \<open>
  Modelled from the spec: the method \<open>Cookie\<close> of the Context, which the middleware
  calls and the source files embedded here do not define. It looks the named cookie
  up among those the caller holds, and fails when there is none.
\<close>

definition Cookie_of :: "Context \<Rightarrow> string \<Rightarrow> error + string" where
  "Cookie_of c name =
     (case map_of (Cookies (r c)) name of
        None \<Rightarrow> Inl (Error ''http: named cookie not present'')
      | Some v \<Rightarrow> Inr v)"

text \<open>
  Modelled from the spec: the method \<open>SetCookie\<close> of the Context, not defined in the
  source files embedded here. It issues the cookie on the response.
\<close>

definition SetCookie :: "Context \<Rightarrow> Cookie \<Rightarrow> Context" where
  "SetCookie c k = c\<lparr>w := (w c)\<lparr>set_cookies := set_cookies (w c) @ [k]\<rparr>\<rparr>"

text \<open>
  Modelled from the spec: the method \<open>ServerError\<close> of the Context, not defined in the
  source files embedded here. It is the specification's \<open>reportError\<close>: it writes the
  message as the body with the given status and returns the error, which halts the
  chain.
\<close>

definition ServerError :: "Context \<Rightarrow> int \<Rightarrow> string \<Rightarrow> hres" where
  "ServerError c code msg = Done (Some (Error msg)) (snd (String c code msg))"

text \<open>
  The handler. The clock (\<open>time.Now()\<close>, in nanoseconds) and the random bytes of
  \<open>uuid.New()\<close> are inputs. \<open>time.Duration(config.CookieMaxAge) * time.Second\<close> is a
  product of 64-bit integers and wraps. The result \<open>err\<close> of the handler is the
  variable that \<open>k, err := context.Cookie(...)\<close> assigns, and the final \<open>return\<close>
  returns it.
\<close>

definition cookie_expiry :: "int \<Rightarrow> 64 word \<Rightarrow> int" where
  "cookie_expiry now maxAge = now + sint (maxAge * 1000000000)"

definition csrf_issue :: "CSRFConfig \<Rightarrow> int \<Rightarrow> string \<Rightarrow> error option \<Rightarrow> Context \<Rightarrow> hres" where
  "csrf_issue config now token err c =
     (let nCookie = \<lparr>cookie_Name = CookieName config, cookie_Value = token,
                     cookie_Path = (if CookiePath config \<noteq> [] then CookiePath config else []),
                     cookie_Domain = (if CookieDomain config \<noteq> [] then CookieDomain config else []),
                     cookie_Expires = cookie_expiry now (CookieMaxAge config),
                     cookie_Secure = CookieSecure config,
                     cookie_HttpOnly = CookieHTTPOnly config\<rparr>;
          c1 = SetCookie c nCookie;
          c2 = Put c1 (Key config) token;
          c3 = SetHeader c2 HeaderVary HeaderCookie
      in CallNext c3 (\<lambda>c4. Done err c4))"

definition csrf_reference :: "CSRFConfig \<Rightarrow> 8 word list \<Rightarrow> Context \<Rightarrow> error option \<times> string" where
  "csrf_reference config u c =
     (case Cookie_of c (CookieName config) of
        Inl e \<Rightarrow> (Some e, Replace_all_dashes (uuid_String u))
      | Inr v \<Rightarrow> (None, v))"

definition csrf_handler ::
  "CSRFConfig \<Rightarrow> csrfTokenCreator \<Rightarrow> int \<Rightarrow> 8 word list \<Rightarrow> Context \<Rightarrow> hres" where
  "csrf_handler config creator now u c =
     (case csrf_reference config u c of (err, token) \<Rightarrow>
        if Method (r c) \<in> {''GET'', ''TRACE'', ''OPTIONS'', ''HEAD''}
        then csrf_issue config now token err c
        else
          (case creator c of
             (Inl e, c1) \<Rightarrow> ServerError c1 400 e
           | (Inr clientToken, c1) \<Rightarrow>
               if \<not> validateCSRFToken token clientToken
               then ServerError c1 403 ''invalid csrf token''
               else csrf_issue config now token err c1))"

definition csrf_defaults :: "CSRFConfig \<Rightarrow> CSRFConfig" where
  "csrf_defaults config =
     (let c1 = (if TokenLength config = 0
                then config\<lparr>TokenLength := TokenLength CSRFDefaultConfig\<rparr> else config);
          c2 = (if TokenLookup c1 = []
                then c1\<lparr>TokenLookup := TokenLookup CSRFDefaultConfig\<rparr> else c1);
          c3 = (if Key c2 = [] then c2\<lparr>Key := Key CSRFDefaultConfig\<rparr> else c2);
          c4 = (if CookieName c3 = []
                then c3\<lparr>CookieName := CookieName CSRFDefaultConfig\<rparr> else c3)
      in if CookieMaxAge c4 = 0
         then c4\<lparr>CookieMaxAge := CookieMaxAge CSRFDefaultConfig\<rparr> else c4)"

text \<open>
  The creator chosen from the pieces of \<open>TokenLookup\<close>. The source reads \<open>proc[1]\<close>
  first, which panics when \<open>TokenLookup\<close> has no \<open>:\<close>.
\<close>

definition csrf_creator :: "string list \<Rightarrow> csrfTokenCreator" where
  "csrf_creator proc =
     (if proc ! 0 = ''query'' then csrfTokenFromQuery (proc ! 1)
      else if proc ! 0 = ''form'' then csrfTokenFromForm (proc ! 1)
      else csrfTokenFromHeader (proc ! 1))"

definition CSRFWithConfig ::
  "CSRFConfig \<Rightarrow> (int \<Rightarrow> 8 word list \<Rightarrow> Context \<Rightarrow> hres) outcome" where
  "CSRFWithConfig config0 =
     (let config = csrf_defaults config0;
          proc = Split (TokenLookup config) CHR '':''
      in if length proc < 2 then RuntimePanic
         else Returns (csrf_handler config (csrf_creator proc)))"

definition CSRF :: "(int \<Rightarrow> 8 word list \<Rightarrow> Context \<Rightarrow> hres) outcome" where
  "CSRF = CSRFWithConfig CSRFDefaultConfig"

section \<open>The access-logger middleware\<close>

text \<open>
  A parsed template of the library \<open>fasttemplate\<close> is what \<open>ExecuteFuncString\<close> makes of
  it: a function from the callback, which maps a tag to its text, to the rendered
  string. The parser \<open>fasttemplate.NewTemplate(_, "${", "}")\<close> is a parameter of the
  constructors: it returns a template or the message of an error.
\<close>

type_synonym Template = "(string \<Rightarrow> string) \<Rightarrow> string"

definition ExecuteFuncString :: "Template \<Rightarrow> (string \<Rightarrow> string) \<Rightarrow> string" where
  "ExecuteFuncString t f = t f"

text \<open>\<open>fmt.Sprintf("%d", n)\<close>.\<close>

function show_nat :: "nat \<Rightarrow> string" where
  "show_nat n =
     (if n < 10 then [''0123456789'' ! n] else show_nat (n div 10) @ [''0123456789'' ! (n mod 10)])"
  by pat_completeness auto

termination show_nat
  by (relation "measure (\<lambda>n. n)") auto

definition show_int :: "int \<Rightarrow> string" where
  "show_int i = (if i < 0 then CHR ''-'' # show_nat (nat (- i)) else show_nat (nat i))"

record LoggerConfig =
  Format :: string
  Level :: "8 word"
  IsLogger :: bool

text \<open>
  The logging backend is outside the source files embedded here. The constructor
  hands it a level and a switch (\<open>SetLevel\<close>, \<open>IsLogger\<close>), and the handler a line at a
  severity (\<open>Trace\<close>, \<open>Info\<close>, \<open>Warn\<close>): \<open>emit\<close> records that call in the sink.
\<close>

record Logger =
  lg_level :: "8 word"
  lg_enabled :: bool

definition emit :: "severity \<Rightarrow> string \<Rightarrow> Context \<Rightarrow> Context" where
  "emit sev s c = c\<lparr>sink := sink c @ [(sev, s)]\<rparr>"

text \<open>
  Modelled from the spec: \<open>Response().Status()\<close>, which the loggers call and the source
  files embedded here do not define: the status code the response has been given.
\<close>

definition Response_Status :: "Context \<Rightarrow> int" where
  "Response_Status c = status (w c)"

text \<open>
  Modelled from the spec: \<open>Response().Size()\<close>, not defined in the source files
  embedded here: the count of response bytes committed.
\<close>

definition Response_Size :: "Context \<Rightarrow> int" where
  "Response_Size c = int (length (body (w c)))"

text \<open>
  Modelled from the spec: \<open>Response().Body()\<close>, not defined in the source files
  embedded here: the response body.
\<close>

definition Response_Body :: "Context \<Rightarrow> string" where
  "Response_Body c = body (w c)"

text \<open>
  Modelled from the spec: \<open>RemoteIP()\<close>, not defined in the source files embedded here:
  the address of the caller.
\<close>

definition RemoteIP :: "Context \<Rightarrow> string" where
  "RemoteIP c = RemoteAddr (r c)"

subsection \<open>The variant with a threshold (part_001)\<close>

definition DefaultLoggerConfig_v1 :: LoggerConfig where
  \<open>DefaultLoggerConfig_v1 =
     \<lparr>Format = ''"url":"${url}" "method":"${method}" "status":${status} "protocol":"${protocol}" "remote_ip":"${remote_ip}" "bytes_in": "${bytes_in} bytes" "bytes_out": "${bytes_out} bytes"'',
      Level = 3, IsLogger = True\<rparr>\<close>

definition logger_tag_v1 :: "Context \<Rightarrow> string \<Rightarrow> string" where
  "logger_tag_v1 c tag =
     (if tag = ''url'' then (let p = URL_Path (r c) in if p = [] then ''/'' else p)
      else if tag = ''method'' then Method (r c)
      else if tag = ''status'' then show_int (Response_Status c)
      else if tag = ''remote_ip'' then RemoteIP c
      else if tag = ''host'' then Host (r c)
      else if tag = ''protocol'' then Proto (r c)
      else if tag = ''bytes_in''
        then (let cl = Header_Get (r_Header (r c)) HeaderContentLength in if cl = [] then ''0'' else cl)
      else if tag = ''bytes_out'' then show_int (Response_Size c)
      else [])"

definition Logger_handler_v1 :: "Template \<Rightarrow> Context \<Rightarrow> hres" where
  "Logger_handler_v1 t c =
     CallNext c (\<lambda>c1.
       let s = ExecuteFuncString t (logger_tag_v1 c1) in
       if Response_Status c1 < 400 then Done None (emit Info s c1)
       else Done None (emit Warn s c1))"

definition LoggerWithConfig_v1 ::
  "(string \<Rightarrow> string + Template) \<Rightarrow> LoggerConfig \<Rightarrow> (Logger \<times> (Context \<Rightarrow> hres)) outcome" where
  "LoggerWithConfig_v1 NewTemplate config0 =
     (let config1 = (if Format config0 = []
                     then config0\<lparr>Format := Format DefaultLoggerConfig_v1\<rparr> else config0);
          config = (if Level config1 = 0
                    then config1\<lparr>Level := Level DefaultLoggerConfig_v1\<rparr> else config1)
      in case NewTemplate (Format config) of
           Inl err \<Rightarrow> FatalExit (''unexpected error when parsing template: '' @ err)
         | Inr t \<Rightarrow>
             Returns (\<lparr>lg_level = Level config, lg_enabled = IsLogger config\<rparr>,
                      Logger_handler_v1 t))"

subsection \<open>The variant that singles out status 200 (part_002)\<close>

definition DefaultLoggerConfig_v2 :: LoggerConfig where
  \<open>DefaultLoggerConfig_v2 =
     \<lparr>Format = ''"url":"${url}" "method":"${method}" "status":${status} "protocol":"${protocol}" "remote_ip":"${remote_ip}" "error":"${error}" "bytes_in": "${bytes_in} bytes" "bytes_out": "${bytes_out} bytes"'',
      Level = 3, IsLogger = True\<rparr>\<close>

definition logger_tag_v2 :: "Context \<Rightarrow> string \<Rightarrow> string" where
  "logger_tag_v2 c tag =
     (if tag = ''url'' then (let p = URL_Path (r c) in if p = [] then ''/'' else p)
      else if tag = ''method'' then Method (r c)
      else if tag = ''status'' then show_int (Response_Status c)
      else if tag = ''remote_ip'' then RemoteIP c
      else if tag = ''host'' then Host (r c)
      else if tag = ''protocol'' then Proto (r c)
      else if tag = ''bytes_in''
        then (let cl = Header_Get (r_Header (r c)) HeaderContentLength in if cl = [] then ''0'' else cl)
      else if tag = ''bytes_out'' then show_int (Response_Size c)
      else if tag = ''error'' then (if Response_Status c \<noteq> 200 then Response_Body c else [])
      else [])"

text \<open>
  In this variant the result of the parser is kept whatever the error: the template
  is nil after a failed parse, and rendering through a nil template panics.
\<close>

definition Logger_handler_v2 :: "Template option \<Rightarrow> Context \<Rightarrow> hres" where
  "Logger_handler_v2 t c =
     CallNext c (\<lambda>c1.
       case t of
         None \<Rightarrow> Panic c1
       | Some t' \<Rightarrow>
           let s = ExecuteFuncString t' (logger_tag_v2 c1) in
           if Response_Status c1 = 200 then Done None (emit Trace s c1)
           else Done None (emit Warn s c1))"

definition LoggerWithConfig_v2 ::
  "(string \<Rightarrow> string + Template) \<Rightarrow> LoggerConfig \<Rightarrow> (Logger \<times> HandlerFunc) outcome" where
  "LoggerWithConfig_v2 NewTemplate config0 =
     (let config1 = (if Format config0 = []
                     then config0\<lparr>Format := Format DefaultLoggerConfig_v2\<rparr> else config0);
          config2 = (if Level config1 = 0
                     then config1\<lparr>Level := Level DefaultLoggerConfig_v2\<rparr> else config1);
          config = config2\<lparr>IsLogger := True\<rparr>;
          t = (case NewTemplate (Format config) of Inl err \<Rightarrow> None | Inr t' \<Rightarrow> Some t')
      in Returns (\<lparr>lg_level = Level config, lg_enabled = IsLogger config\<rparr>,
                  \<lparr>Func = Logger_handler_v2 t, IsMiddleware = True\<rparr>))"

subsection \<open>A parser for the examples\<close>

text \<open>
  The parser of \<open>fasttemplate\<close> for the tags \<open>${\<close> and \<open>}\<close>: text up to the next \<open>${\<close>,
  then a tag name up to the next \<open>}\<close>; a \<open>${\<close> without a \<open>}\<close> after it is an error.
\<close>

fun parse_text :: "string \<Rightarrow> string \<Rightarrow> (string list \<times> string list) option"
  and parse_tag :: "string \<Rightarrow> string \<Rightarrow> (string list \<times> string list) option" where
  "parse_text acc [] = Some ([acc], [])"
| "parse_text acc [x] = Some ([acc @ [x]], [])"
| "parse_text acc (x # y # zs) =
     (if x = CHR ''$'' \<and> y = CHR ''{''
      then (case parse_tag [] zs of
              None \<Rightarrow> None
            | Some (texts, tags) \<Rightarrow> Some (acc # texts, tags))
      else parse_text (acc @ [x]) (y # zs))"
| "parse_tag acc [] = None"
| "parse_tag acc (x # xs) =
     (if x = CHR ''}''
      then (case parse_text [] xs of
              None \<Rightarrow> None
            | Some (texts, tags) \<Rightarrow> Some (texts, acc # tags))
      else parse_tag (acc @ [x]) xs)"

fun render :: "string list \<Rightarrow> string list \<Rightarrow> (string \<Rightarrow> string) \<Rightarrow> string" where
  "render (t # ts) (g # gs) f = t @ f g @ render ts gs f"
| "render (t # ts) [] f = t"
| "render [] gs f = []"

definition fasttemplate_NewTemplate :: "string \<Rightarrow> string + Template" where
  "fasttemplate_NewTemplate template =
     (case parse_text [] template of
        None \<Rightarrow> Inl ''Cannot find end tag''
      | Some (texts, tags) \<Rightarrow> Inr (render texts tags))"

section \<open>What the properties are stated on\<close>

text \<open>
  A run of the chain on one Context: \<open>newContext\<close> creates the Context and the caller
  \<open>p\<close>, any code that holds it, drives it. \<open>serve\<close> is the caller that calls \<open>Next()\<close> once.
\<close>

definition chain_run :: "HandlerFunc list \<Rightarrow> response \<Rightarrow> request \<Rightarrow> (Context \<Rightarrow> hres) \<Rightarrow> Context" where
  "chain_run hs rw rq p = snd (invoke hs (newContext rw rq) (p (newContext rw rq)))"

definition serve :: "Context \<Rightarrow> hres" where
  "serve c = CallNext c (\<lambda>c'. Done None c')"

text \<open>
  Of a trace: the indices of the handlers called, in the order of the calls; the
  indices of the calls that returned an error; and the execution of \<open>Next\<close> an event
  belongs to.
\<close>

fun invoked :: "event list \<Rightarrow> int list" where
  "invoked [] = []"
| "invoked (Invoked n i # es) = i # invoked es"
| "invoked (Failed n i # es) = invoked es"

fun failed :: "event list \<Rightarrow> int list" where
  "failed [] = []"
| "failed (Invoked n i # es) = failed es"
| "failed (Failed n i # es) = i # failed es"

fun ev_id :: "event \<Rightarrow> nat" where
  "ev_id (Invoked n i) = n"
| "ev_id (Failed n i) = n"

text \<open>
  The invariant of the cursor, as it holds while a handler or the caller runs: the
  handlers called so far are those at \<open>0, 1, \<dots>\<close> in this order, none lies beyond the
  cursor or the end of the list, and as long as the chain is neither halted nor
  panicking and the cursor is inside the list, every handler up to the cursor has
  been called.
\<close>

definition cursor_ok :: "HandlerFunc list \<Rightarrow> Context \<Rightarrow> bool" where
  "cursor_ok hs c \<longleftrightarrow>
     invoked (trace c) = map int [0..<length (invoked (trace c))] \<and>
     int (length (invoked (trace c))) \<le> index c + 1 \<and>
     length (invoked (trace c)) \<le> length hs \<and>
     - 1 \<le> index c \<and>
     (\<not> intercept c \<and> \<not> panicked c \<and> index c < int (length hs) \<longrightarrow>
        int (length (invoked (trace c))) = index c + 1)"

text \<open>
  The invariant of the halt. No call follows an error that has been returned
  (\<open>quiet_after_fail\<close>); an execution of \<open>Next\<close> that has been returned an error by the
  handler at \<open>k\<close> has called no handler above \<open>k\<close> (\<open>scoped\<close>); the events belong to
  executions entered so far; and an error has been returned only when \<open>intercept\<close> is
  set. \<open>extends n c c'\<close> says that \<open>c'\<close> continues the trace of \<open>c\<close> with events of the
  executions numbered \<open>n\<close> or above.
\<close>

definition quiet_after_fail :: "event list \<Rightarrow> bool" where
  "quiet_after_fail tr \<longleftrightarrow> (\<forall>xs n k ys. tr = xs @ Failed n k # ys \<longrightarrow> invoked ys = [])"

definition scoped :: "event list \<Rightarrow> bool" where
  "scoped tr \<longleftrightarrow> (\<forall>n k j. Failed n k \<in> set tr \<longrightarrow> Invoked n j \<in> set tr \<longrightarrow> j \<le> k)"

definition halt_ok :: "Context \<Rightarrow> bool" where
  "halt_ok c \<longleftrightarrow>
     (\<forall>e \<in> set (trace c). ev_id e < nexts c) \<and>
     (\<not> intercept c \<longrightarrow> failed (trace c) = []) \<and>
     quiet_after_fail (trace c) \<and> scoped (trace c)"

definition extends :: "nat \<Rightarrow> Context \<Rightarrow> Context \<Rightarrow> bool" where
  "extends n c c' \<longleftrightarrow>
     nexts c \<le> nexts c' \<and> (\<exists>new. trace c' = trace c @ new \<and> (\<forall>e \<in> set new. n \<le> ev_id e))"

text \<open>
  What a handler's result says: whether it calls \<open>Next()\<close>, the error it returns
  without calling it, and the context it has reached.
\<close>

fun calls_Next :: "hres \<Rightarrow> bool" where
  "calls_Next (CallNext c k) = True"
| "calls_Next (Done e c) = False"
| "calls_Next (Panic c) = False"

fun hres_err :: "hres \<Rightarrow> error option" where
  "hres_err (Done e c) = e"
| "hres_err (CallNext c k) = None"
| "hres_err (Panic c) = None"

fun hres_ctx :: "hres \<Rightarrow> Context" where
  "hres_ctx (Done e c) = c"
| "hres_ctx (CallNext c k) = c"
| "hres_ctx (Panic c) = c"

text \<open>
  For the CSRF middleware: the map that the configured location is read from, the
  value found there before the creator tests it, and the token of the cookie that a
  handler's result issues last, if it calls \<open>Next()\<close>.
\<close>

definition csrf_source :: "string list \<Rightarrow> Context \<Rightarrow> http_Header" where
  "csrf_source proc c =
     (if proc ! 0 = ''query'' then (case queryList c of None \<Rightarrow> URL_Query (r c) | Some q \<Rightarrow> q)
      else if proc ! 0 = ''form'' then Form (r c)
      else w_Header (w c))"

definition csrf_lookup :: "string list \<Rightarrow> Context \<Rightarrow> string" where
  "csrf_lookup proc c =
     (if proc ! 0 = ''query'' then fst (QueryParam c (proc ! 1))
      else if proc ! 0 = ''form'' then FormValue c (proc ! 1)
      else GetHeader c (proc ! 1))"


text \<open>
  For the loggers: the order of the severities they use, lowest first, and a chain
  with a logger as its first handler.
\<close>

fun severity_rank :: "severity \<Rightarrow> nat" where
  "severity_rank Trace = 0"
| "severity_rank Info = 1"
| "severity_rank Warn = 2"

definition logger_chain_v1 :: "Template \<Rightarrow> HandlerFunc list \<Rightarrow> HandlerFunc list" where
  "logger_chain_v1 t hs = \<lparr>Func = Logger_handler_v1 t, IsMiddleware = True\<rparr> # hs"

definition logger_chain_v2 :: "Template \<Rightarrow> HandlerFunc list \<Rightarrow> HandlerFunc list" where
  "logger_chain_v2 t hs = \<lparr>Func = Logger_handler_v2 (Some t), IsMiddleware = True\<rparr> # hs"

section \<open>Inputs of the examples\<close>

text \<open>
  An empty response, a plain GET request, handlers that return at once (\<open>h_ok\<close>,
  \<open>h_fail\<close>, \<open>h_status\<close>) or call \<open>Next()\<close> first (\<open>mw_wrap\<close>, \<open>mw_twice\<close>, \<open>mw_wrap_fail\<close>),
  requests and configurations for the CSRF middleware with the handlers their
  constructor returns, the random bytes of a UUID, and a log format.
\<close>

definition rw0 :: response where
  "rw0 = \<lparr>w_Header = Map.empty, committed = False, status = 0, body = [], set_cookies = []\<rparr>"

definition rq0 :: request where
  "rq0 = \<lparr>Method = ''GET'', URL_Path = ''/'', URL_Query = Map.empty, r_Header = Map.empty,
           Form = Map.empty, Cookies = [], Host = ''example.org'', Proto = ''HTTP/1.1'',
           RemoteAddr = ''192.0.2.1''\<rparr>"

definition mw_twice :: HandlerFunc where
  "mw_twice = \<lparr>Func = (\<lambda>c. CallNext c (\<lambda>c1. CallNext c1 (\<lambda>c2. Done None c2))), IsMiddleware = True\<rparr>"

definition mw_wrap :: HandlerFunc where
  "mw_wrap = \<lparr>Func = (\<lambda>c. CallNext c (\<lambda>c1. Done None c1)), IsMiddleware = True\<rparr>"

definition h_ok :: HandlerFunc where
  "h_ok = \<lparr>Func = (\<lambda>c. Done None c), IsMiddleware = False\<rparr>"


definition mw_wrap_fail :: HandlerFunc where
  "mw_wrap_fail = \<lparr>Func = (\<lambda>c. CallNext c (\<lambda>c1. Done (Some (Error ''late'')) c1)), IsMiddleware = True\<rparr>"

definition rq_proto_and_ssl :: request where
  "rq_proto_and_ssl = rq0\<lparr>r_Header := [''X-Forwarded-Proto'' \<mapsto> [''https''], ''X-Forwarded-Ssl'' \<mapsto> [''on'']]\<rparr>"

definition rq_ssl_only :: request where
  "rq_ssl_only = rq0\<lparr>r_Header := [''X-Forwarded-Ssl'' \<mapsto> [''on'']]\<rparr>"



definition u0 :: "8 word list" where
  "u0 = [0, 1, 2, 3, 4, 5, 6, 7, 8, 9, 10, 11, 12, 13, 14, 255]"

definition rq_post :: request where
  "rq_post = rq0\<lparr>Method := ''POST'', Cookies := [(''_csrf'', ''abc'')]\<rparr>"



definition cfg_query :: CSRFConfig where
  "cfg_query = CSRFDefaultConfig\<lparr>TokenLookup := ''query:csrf''\<rparr>"

definition csrf_query :: "int \<Rightarrow> 8 word list \<Rightarrow> Context \<Rightarrow> hres" where
  "csrf_query = csrf_handler (csrf_defaults cfg_query)
                 (csrf_creator (Split (TokenLookup (csrf_defaults cfg_query)) CHR '':''))"

definition rq_empty_tokens :: request where
  "rq_empty_tokens = rq0\<lparr>Method := ''POST'', Cookies := [(''_csrf'', [])],
                         URL_Query := [''csrf'' \<mapsto> [[]]]\<rparr>"

definition csrf_default :: "int \<Rightarrow> 8 word list \<Rightarrow> Context \<Rightarrow> hres" where
  "csrf_default = csrf_handler (csrf_defaults CSRFDefaultConfig)
                    (csrf_creator (Split (TokenLookup (csrf_defaults CSRFDefaultConfig)) CHR '':''))"

definition rq_post_empty_header :: request where
  "rq_post_empty_header = rq_post\<lparr>r_Header := [''X-CSRF-Token'' \<mapsto> [[]]]\<rparr>"

definition rq_post_header_same :: request where
  "rq_post_header_same = rq_post\<lparr>r_Header := [''X-CSRF-Token'' \<mapsto> [''abc'']]\<rparr>"

definition mw_token_header :: "string \<Rightarrow> HandlerFunc" where
  "mw_token_header v =
     \<lparr>Func = (\<lambda>c. CallNext (SetHeader c ''X-CSRF-Token'' v) (\<lambda>c1. Done None c1)),
      IsMiddleware = True\<rparr>"

definition mw_csrf :: HandlerFunc where
  "mw_csrf = \<lparr>Func = csrf_default 0 u0, IsMiddleware = True\<rparr>"




definition h_status :: "int \<Rightarrow> HandlerFunc" where
  "h_status code = \<lparr>Func = (\<lambda>c. Done None (Status c code)), IsMiddleware = False\<rparr>"

definition t_line :: Template where
  "t_line = render [[], '' '', '' -> '', ''.''] [''method'', ''url'', ''status'']"

definition cfg_bad_format :: LoggerConfig where
  "cfg_bad_format = \<lparr>Format = ''${url'', Level = 3, IsLogger = True\<rparr>"

section \<open>Properties of the handler chain\<close>

subsection \<open>Unfolding the loop, and induction over a run\<close>

declare Next.simps [simp del] for_loop.simps [simp del]

lemma for_loop_stop: "\<not> index c < int (length hs) \<or> intercept c \<Longrightarrow> for_loop hs n c = c"
  by (subst for_loop.simps) auto

lemma for_loop_neg:
  "index c < int (length hs) \<Longrightarrow> \<not> intercept c \<Longrightarrow> index c < 0 \<Longrightarrow>
   for_loop hs n c = c\<lparr>panicked := True\<rparr>"
  by (subst for_loop.simps) auto

lemma for_loop_step:
  assumes "index c < int (length hs)" "\<not> intercept c" "0 \<le> index c"
    and "c0 = c\<lparr>trace := trace c @ [Invoked n (index c)]\<rparr>"
    and "invoke hs c0 (Func (hs ! nat (index c)) c0) = (err, c1)"
    and "c2 = (if err \<noteq> None
               then c1\<lparr>intercept := True, trace := trace c1 @ [Failed n (index c)]\<rparr> else c1)"
  shows "for_loop hs n c = (if panicked c1 then c1 else for_loop hs n (c2\<lparr>index := index c2 + 1\<rparr>))"
  using assms by (subst for_loop.simps) (auto simp: Let_def)

lemma chain_induct [case_names Next stop neg step Done Panic CallNext]:
  assumes N: "\<And>hs c. Q hs (nexts c) (c\<lparr>index := index c + 1, nexts := Suc (nexts c)\<rparr>) \<Longrightarrow> P hs c"
    and S: "\<And>hs n c. \<not> index c < int (length hs) \<or> intercept c \<Longrightarrow> Q hs n c"
    and G: "\<And>hs n c. index c < int (length hs) \<Longrightarrow> \<not> intercept c \<Longrightarrow> index c < 0 \<Longrightarrow> Q hs n c"
    and T: "\<And>hs n c c0 err c1 c2.
              index c < int (length hs) \<Longrightarrow> \<not> intercept c \<Longrightarrow> 0 \<le> index c \<Longrightarrow>
              c0 = c\<lparr>trace := trace c @ [Invoked n (index c)]\<rparr> \<Longrightarrow>
              R hs c0 (Func (hs ! nat (index c)) c0) \<Longrightarrow>
              invoke hs c0 (Func (hs ! nat (index c)) c0) = (err, c1) \<Longrightarrow>
              c2 = (if err \<noteq> None
                    then c1\<lparr>intercept := True, trace := trace c1 @ [Failed n (index c)]\<rparr> else c1) \<Longrightarrow>
              (\<not> panicked c1 \<Longrightarrow> Q hs n (c2\<lparr>index := index c2 + 1\<rparr>)) \<Longrightarrow> Q hs n c"
    and D: "\<And>hs c err c'. R hs c (Done err c')"
    and A: "\<And>hs c c'. R hs c (Panic c')"
    and C: "\<And>hs c c' k c1. P hs (adopt c' c) \<Longrightarrow> c1 = Next hs (adopt c' c) \<Longrightarrow>
              (\<not> panicked c1 \<Longrightarrow> R hs c1 (k c1)) \<Longrightarrow> R hs c (CallNext c' k)"
  shows "P hs c" and "Q hs n c" and "R hs c h"
proof (induct hs c and hs n c and hs c h rule: Next_for_loop_invoke.induct)
  case (1 hs c)
  then show ?case by (rule N)
next
  case (2 hs n c)
  show ?case
  proof (cases "index c < int (length hs) \<and> \<not> intercept c")
    case False
    then show ?thesis by (intro S) auto
  next
    case live: True
    show ?thesis
    proof (cases "index c < 0")
      case True
      with live show ?thesis by (intro G) auto
    next
      case False
      define c0 where "c0 = c\<lparr>trace := trace c @ [Invoked n (index c)]\<rparr>"
      obtain err c1 where inv: "invoke hs c0 (Func (hs ! nat (index c)) c0) = (err, c1)"
        by (metis surj_pair)
      define c2 where "c2 = (if err \<noteq> None
            then c1\<lparr>intercept := True, trace := trace c1 @ [Failed n (index c)]\<rparr> else c1)"
      have r: "R hs c0 (Func (hs ! nat (index c)) c0)"
        using "2.hyps"(1) [of c0] live False by (simp add: c0_def)
      have q: "\<not> panicked c1 \<Longrightarrow> Q hs n (c2\<lparr>index := index c2 + 1\<rparr>)"
        using "2.hyps"(2) [of c0 err c1 c2] live False inv by (simp add: c0_def c2_def)
      show ?thesis
        using live False r inv q by (intro T [of c hs c0 n err c1 c2]) (auto simp: c0_def c2_def)
    qed
  qed
next
  case (3 hs c err c')
  show ?case by (rule D)
next
  case (4 hs c c')
  show ?case by (rule A)
next
  case (5 hs c c' k)
  then show ?case by (intro C [of hs c' c "Next hs (adopt c' c)" k]) auto
qed

lemma index_mono:
  "index c \<le> index (Next hs c)"
  "index c \<le> index (for_loop hs n c)"
  "index c \<le> index (snd (invoke hs c h))"
proof (induct hs c and hs n c and hs c h rule: chain_induct)
  case (Next hs c)
  then show ?case by (simp add: Next.simps)
next
  case (stop hs n c)
  then show ?case by (simp add: for_loop_stop)
next
  case (neg hs n c)
  then show ?case by (simp add: for_loop_neg)
next
  case (step hs n c c0 err c1 c2)
  then show ?case by (auto simp: for_loop_step [OF step(1-4,6,7)] split: if_splits)
next
  case (Done hs c err c')
  show ?case by simp
next
  case (Panic hs c c')
  show ?case by simp
next
  case (CallNext hs c c' k c1)
  then show ?case by (auto simp: Let_def)
qed

subsection \<open>Each handler is called at most once, in list order\<close>

lemma invoked_append [simp]: "invoked (xs @ ys) = invoked xs @ invoked ys"
  by (induction xs rule: invoked.induct) simp_all

lemma cursor_ok_adopt [simp]: "cursor_ok hs (adopt c' c) = cursor_ok hs c"
  by (simp add: cursor_ok_def)

lemma cursor_ok_nexts [simp]: "cursor_ok hs (c\<lparr>nexts := x\<rparr>) = cursor_ok hs c"
  by (simp add: cursor_ok_def)

lemma newContext_simps [simp]:
  "index (newContext rw rq) = - 1" "intercept (newContext rw rq) = False"
  "panicked (newContext rw rq) = False" "nexts (newContext rw rq) = 0"
  "trace (newContext rw rq) = []" "w (newContext rw rq) = rw" "r (newContext rw rq) = rq"
  by (simp_all add: newContext_def)

lemma cursor_ok_enter:
  assumes "cursor_ok hs (c\<lparr>index := index c - 1\<rparr>)" "\<not> panicked c" "\<not> intercept c"
    "index c < int (length hs)"
  shows "cursor_ok hs (c\<lparr>trace := trace c @ [Invoked n (index c)]\<rparr>)"
proof -
  let ?m = "length (invoked (trace c))"
  from assms have m: "int ?m = index c" and pre: "invoked (trace c) = map int [0..<?m]"
    by (simp_all add: cursor_ok_def)
  have "invoked (trace c) @ [index c] = map int [0..<Suc ?m]"
    using pre m by simp
  then show ?thesis using assms m by (simp add: cursor_ok_def)
qed

lemma cursor_ok_leave:
  assumes "cursor_ok hs c1"
    and "c2 = (if err \<noteq> None
               then c1\<lparr>intercept := True, trace := trace c1 @ [Failed n i]\<rparr> else c1)"
  shows "cursor_ok hs (c2\<lparr>index := index c2 + 1, index := index c2 + 1 - 1\<rparr>)"
  using assms by (auto simp: cursor_ok_def)

lemma cursor_ok_chain:
  "cursor_ok hs c \<longrightarrow> \<not> panicked c \<longrightarrow> cursor_ok hs (Next hs c)"
  "cursor_ok hs (c\<lparr>index := index c - 1\<rparr>) \<longrightarrow> \<not> panicked c \<longrightarrow> cursor_ok hs (for_loop hs n c)"
  "cursor_ok hs c \<longrightarrow> \<not> panicked c \<longrightarrow> cursor_ok hs (snd (invoke hs c h))"
proof (induct hs c and hs n c and hs c h rule: chain_induct)
  case (Next hs c)
  then show ?case by (simp add: Next.simps)
next
  case (stop hs n c)
  then show ?case by (auto simp: for_loop_stop cursor_ok_def)
next
  case (neg hs n c)
  then show ?case by (auto simp: cursor_ok_def)
next
  case (step hs n c c0 err c1 c2)
  show ?case
  proof (intro impI)
    assume pre: "cursor_ok hs (c\<lparr>index := index c - 1\<rparr>)" and np: "\<not> panicked c"
    have "cursor_ok hs c0"
      unfolding step(4) using pre np step(2,1) by (rule cursor_ok_enter)
    moreover have "\<not> panicked c0" using np step(4) by simp
    ultimately have ok1: "cursor_ok hs c1" using step(5,6) by simp
    show "cursor_ok hs (for_loop hs n c)"
    proof (cases "panicked c1")
      case True
      then show ?thesis using ok1 by (simp add: for_loop_step [OF step(1-4,6,7)])
    next
      case False
      have "cursor_ok hs (c2\<lparr>index := index c2 + 1, index := index c2 + 1 - 1\<rparr>)"
        using ok1 step(7) by (rule cursor_ok_leave)
      moreover have "\<not> panicked c2" using False step(7) by simp
      ultimately show ?thesis
        using step(8) [OF False] False by (simp add: for_loop_step [OF step(1-4,6,7)])
    qed
  qed
next
  case (Done hs c err c')
  show ?case by simp
next
  case (Panic hs c c')
  show ?case by (simp add: cursor_ok_def)
next
  case (CallNext hs c c' k c1)
  then show ?case by (auto simp: Let_def)
qed

lemma cursor_ok_newContext: "cursor_ok hs (newContext rw rq)"
  by (simp add: cursor_ok_def)

text \<open>
  Claim C1. Take any handler list and any code driving one Context from its creation:
  the caller \<open>p\<close> and every handler may call \<open>Next()\<close> any number of times, also from
  inside a handler that \<open>Next()\<close> itself is running. Then the indices of the handlers
  called, in the order of the calls, are \<open>0, 1, \<dots>, m - 1\<close> for some \<open>m\<close> not above the
  length of the list: no index is called twice, and the calls follow the list order
  without a gap up to the point where the chain stops.
\<close>

theorem Next_calls_each_handler_once_in_order:
  "invoked (trace (chain_run hs rw rq p)) = map int [0..<length (invoked (trace (chain_run hs rw rq p)))]
   \<and> length (invoked (trace (chain_run hs rw rq p))) \<le> length hs
   \<and> distinct (invoked (trace (chain_run hs rw rq p)))"
proof -
  have "cursor_ok hs (chain_run hs rw rq p)"
    unfolding chain_run_def using cursor_ok_chain(3) [of hs "newContext rw rq" "p (newContext rw rq)"]
    by (simp add: cursor_ok_newContext)
  then have a: "invoked (trace (chain_run hs rw rq p)) = map int [0..<length (invoked (trace (chain_run hs rw rq p)))]"
    and b: "length (invoked (trace (chain_run hs rw rq p))) \<le> length hs"
    by (simp_all add: cursor_ok_def)
  have "distinct (map int [0..<length (invoked (trace (chain_run hs rw rq p)))])"
    by (simp add: distinct_map)
  with a b show ?thesis by metis
qed

theorem Next_calls_each_handler_once_in_order_witness:
  "invoked (trace (chain_run [mw_twice, h_ok, mw_wrap, h_ok] rw0 rq0 serve)) = [0, 1, 2, 3]
   \<and> distinct (invoked (trace (chain_run [mw_twice, h_ok, mw_wrap, h_ok] rw0 rq0 serve)))"
proof -
  have "length (invoked (trace (chain_run [mw_twice, h_ok, mw_wrap, h_ok] rw0 rq0 serve))) = 4"
    by (simp add: chain_run_def serve_def mw_twice_def mw_wrap_def h_ok_def
        Next.simps for_loop.simps Let_def)
  moreover have "map int [0..<4] = [0, 1, 2, 3]"
    by (simp add: upt_rec)
  ultimately show ?thesis
    using Next_calls_each_handler_once_in_order [of "[mw_twice, h_ok, mw_wrap, h_ok]" rw0 rq0 serve]
    by simp
qed

subsection \<open>An error halts the chain\<close>

lemma failed_append [simp]: "failed (xs @ ys) = failed xs @ failed ys"
  by (induction xs rule: failed.induct) simp_all


lemma invoked_Nil_iff: "invoked tr = [] \<longleftrightarrow> (\<forall>n k. Invoked n k \<notin> set tr)"
  by (induction tr rule: invoked.induct) auto





lemma halt_ok_adopt [simp]: "halt_ok (adopt c' c) = halt_ok c"
  by (simp add: halt_ok_def)

lemma extends_adopt [simp]:
  "extends n (adopt c' c) d = extends n c d" "extends n d (adopt c' c) = extends n d c"
  by (simp_all add: extends_def)







lemma nested_call_before_error:
  "trace (chain_run [mw_wrap_fail, h_ok, h_ok] rw0 rq0 serve)
     = [Invoked 0 0, Invoked 1 1, Invoked 1 2, Failed 0 0]"
  by (simp add: chain_run_def serve_def mw_wrap_fail_def h_ok_def
      Next.simps for_loop.simps Let_def)

section \<open>Properties of Redirect and Scheme\<close>

lemma Redirect_out_of_range:
  "code < 300 \<or> code > 308 \<Longrightarrow> Redirect c code uri = (Some ErrInvalidRedirectCode, c)"
  by (simp add: Redirect_def)

lemma Redirect_in_range:
  assumes "300 \<le> code" "code \<le> 308"
  shows "fst (Redirect c code uri) = None"
    and "w (snd (Redirect c code uri)) = WriteHeader (w c) code"
    and "r_Header (r (snd (Redirect c code uri))) = (r_Header (r c))(''Location'' \<mapsto> [uri])"
  using assms by (simp_all add: Redirect_def Let_def Header_Set_def)

lemma WriteHeader_keeps_Header: "w_Header (WriteHeader rw code) = w_Header rw"
  by (simp add: WriteHeader_def)

text \<open>
  Claim C3, at \<open>Redirect(301, "/x")\<close> on a fresh Context. The call returns nil and
  commits status 301, but the header \<open>Location\<close> is set on the header map of the
  request (\<open>c.r.Header\<close>); the header map of the response, which is the one sent to the
  client, has no \<open>Location\<close>.
\<close>

theorem Redirect_sets_Location_on_the_request:
  "fst (Redirect (newContext rw0 rq0) 301 ''/x'') = None
   \<and> committed (w (snd (Redirect (newContext rw0 rq0) 301 ''/x'')))
   \<and> status (w (snd (Redirect (newContext rw0 rq0) 301 ''/x''))) = 301
   \<and> w_Header (w (snd (Redirect (newContext rw0 rq0) 301 ''/x''))) ''Location'' = None
   \<and> Header_Get (w_Header (w (snd (Redirect (newContext rw0 rq0) 301 ''/x'')))) ''Location'' = []
   \<and> Header_Get (r_Header (r (snd (Redirect (newContext rw0 rq0) 301 ''/x'')))) ''Location'' = ''/x''"
  by (simp add: Redirect_def Let_def Header_Set_def Header_Get_def WriteHeader_def rw0_def rq0_def)

text \<open>
  Claim C9. \<open>Scheme()\<close> returns the value of \<open>X-Forwarded-Proto\<close> when the request has a
  non-empty one; otherwise that of \<open>X-Forwarded-Protocol\<close>; otherwise \<open>https\<close> when
  \<open>X-Forwarded-Ssl\<close> is \<open>on\<close>; otherwise the value of \<open>X-Url-Scheme\<close>; and \<open>http\<close> when
  none of these applies. So a request with \<open>X-Forwarded-Proto: https\<close> and
  \<open>X-Forwarded-Ssl: on\<close> resolves to the value of the first, a request with only
  \<open>X-Forwarded-Ssl: on\<close> to \<open>https\<close>, and a request with none of the four to \<open>http\<close>.
\<close>

theorem Scheme_precedence:
  fixes c :: Context
  defines "h \<equiv> Header_Get (r_Header (r c))"
  shows "(h ''X-Forwarded-Proto'' \<noteq> [] \<longrightarrow> Scheme c = h ''X-Forwarded-Proto'')
    \<and> (h ''X-Forwarded-Proto'' = [] \<and> h ''X-Forwarded-Protocol'' \<noteq> [] \<longrightarrow>
         Scheme c = h ''X-Forwarded-Protocol'')
    \<and> (h ''X-Forwarded-Proto'' = [] \<and> h ''X-Forwarded-Protocol'' = [] \<and>
         h ''X-Forwarded-Ssl'' = ''on'' \<longrightarrow> Scheme c = ''https'')
    \<and> (h ''X-Forwarded-Proto'' = [] \<and> h ''X-Forwarded-Protocol'' = [] \<and>
         h ''X-Forwarded-Ssl'' \<noteq> ''on'' \<and> h ''X-Url-Scheme'' \<noteq> [] \<longrightarrow>
         Scheme c = h ''X-Url-Scheme'')
    \<and> (h ''X-Forwarded-Proto'' = [] \<and> h ''X-Forwarded-Protocol'' = [] \<and>
         h ''X-Forwarded-Ssl'' \<noteq> ''on'' \<and> h ''X-Url-Scheme'' = [] \<longrightarrow> Scheme c = ''http'')
    \<and> (r_Header (r c) ''X-Forwarded-Proto'' = Some [''https''] \<and>
         r_Header (r c) ''X-Forwarded-Ssl'' = Some [''on''] \<longrightarrow>
         Scheme c = ''https'' \<and> Scheme c = h ''X-Forwarded-Proto'')
    \<and> (r_Header (r c) = [''X-Forwarded-Ssl'' \<mapsto> [''on'']] \<longrightarrow> Scheme c = ''https'')
    \<and> (r_Header (r c) ''X-Forwarded-Proto'' = None \<and> r_Header (r c) ''X-Forwarded-Protocol'' = None \<and>
         r_Header (r c) ''X-Forwarded-Ssl'' = None \<and> r_Header (r c) ''X-Url-Scheme'' = None \<longrightarrow>
         Scheme c = ''http'')"
  unfolding h_def
  by (simp add: Scheme_def Let_def Header_Get_def HeaderXForwardedProto_def
      HeaderXForwardedProtocol_def HeaderXForwardedSsl_def HeaderXUrlScheme_def)

theorem Scheme_precedence_witness:
  "Scheme (newContext rw0 rq_proto_and_ssl) = ''https''
   \<and> Scheme (newContext rw0 rq_ssl_only) = ''https''
   \<and> Scheme (newContext rw0 rq0) = ''http''"
proof -
  have a: "r_Header (r (newContext rw0 rq_proto_and_ssl)) ''X-Forwarded-Proto'' = Some [''https'']
        \<and> r_Header (r (newContext rw0 rq_proto_and_ssl)) ''X-Forwarded-Ssl'' = Some [''on'']"
    by (simp add: rq_proto_and_ssl_def)
  have b: "r_Header (r (newContext rw0 rq_ssl_only)) = [''X-Forwarded-Ssl'' \<mapsto> [''on'']]"
    by (simp add: rq_ssl_only_def)
  have c: "r_Header (r (newContext rw0 rq0)) ''X-Forwarded-Proto'' = None
        \<and> r_Header (r (newContext rw0 rq0)) ''X-Forwarded-Protocol'' = None
        \<and> r_Header (r (newContext rw0 rq0)) ''X-Forwarded-Ssl'' = None
        \<and> r_Header (r (newContext rw0 rq0)) ''X-Url-Scheme'' = None"
    by (simp add: rq0_def)
  from a Scheme_precedence [of "newContext rw0 rq_proto_and_ssl"]
  have "Scheme (newContext rw0 rq_proto_and_ssl) = ''https''" by blast
  moreover from b Scheme_precedence [of "newContext rw0 rq_ssl_only"]
  have "Scheme (newContext rw0 rq_ssl_only) = ''https''" by blast
  moreover from c Scheme_precedence [of "newContext rw0 rq0"]
  have "Scheme (newContext rw0 rq0) = ''http''" by blast
  ultimately show ?thesis by simp
qed

section \<open>Properties of the CSRF middleware\<close>

subsection \<open>The comparison and the fresh token\<close>

lemma byte_of_inj: "byte_of a = byte_of b \<longleftrightarrow> a = b"
proof
  assume "byte_of a = byte_of b"
  then have "unat (of_nat (of_char a) :: 8 word) = unat (of_nat (of_char b) :: 8 word)"
    by (simp add: byte_of_def)
  moreover have "(of_char a :: nat) < 256" "(of_char b :: nat) < 256" by simp_all
  ultimately have "(of_char a :: nat) = of_char b"
    by (simp add: unat_of_nat)
  then show "a = b" by simp
qed simp

lemma unat_byte_less: "unat (v :: 8 word) < 256"
  using unsigned_less [of v, where 'a = nat] by simp

lemma unat_ucast_8_32: "unat (ucast (v :: 8 word) :: 32 word) = unat v"
proof -
  have "unat v < 2 ^ 32" using unat_byte_less [of v] by simp
  then show ?thesis by (simp add: unsigned_ucast_eq take_bit_nat_eq_self)
qed

lemma ConstantTimeByteEq_zero: "ConstantTimeByteEq v 0 = (if v = 0 then 1 else 0)"
proof (cases "v = 0")
  case True
  then show ?thesis by (simp add: ConstantTimeByteEq_def)
next
  case False
  let ?z = "ucast v :: 32 word"
  have nz: "?z \<noteq> 0" using False unat_ucast_8_32 [of v] by (metis unat_eq_0)
  have "unat (?z - 1) = unat v - 1"
    using nz by (simp add: unat_minus_one unat_ucast_8_32)
  then have "unat (?z - 1) < 2 ^ 31" using unat_byte_less [of v] by simp
  then have "drop_bit 31 (unat (?z - 1)) = 0"
    by (simp add: drop_bit_eq_div)
  then have "drop_bit 31 (?z - 1) = 0"
    by (metis unat_drop_bit_eq unat_eq_0)
  then show ?thesis using False by (simp add: ConstantTimeByteEq_def)
qed

lemma word_xor_eq_0: "(a :: 8 word) XOR b = 0 \<longleftrightarrow> a = b"
proof
  assume z: "a XOR b = 0"
  have "a = (a XOR b) XOR b" by (simp add: xor.assoc)
  then show "a = b" by (simp add: z)
qed simp

lemma xor_fold_zero:
  "length x = length y \<Longrightarrow> xor_fold v x y = 0 \<longleftrightarrow> v = 0 \<and> x = y"
proof (induction x y arbitrary: v rule: list_induct2)
  case Nil
  show ?case by simp
next
  case (Cons a x b y)
  then show ?case by (auto simp: or_eq_0_iff word_xor_eq_0 byte_of_inj)
qed

lemma ConstantTimeCompare_eq: "ConstantTimeCompare x y = (if x = y then 1 else 0)"
  by (auto simp: ConstantTimeCompare_def ConstantTimeByteEq_zero xor_fold_zero)

lemma validateCSRFToken_iff: "validateCSRFToken token clientToken \<longleftrightarrow> token = clientToken"
  by (simp add: validateCSRFToken_def ConstantTimeCompare_eq)

lemma hexdigit_in: "hexdigit n \<in> set ''0123456789abcdef''"
proof -
  have "n mod 16 < length ''0123456789abcdef''" by simp
  then show ?thesis unfolding hexdigit_def by (rule nth_mem)
qed

lemma hexdigit_not_dash: "hexdigit n \<noteq> CHR ''-''"
  using hexdigit_in [of n] by auto










lemma QueryParam_keeps [simp]:
  "w (snd (QueryParam c name)) = w c" "r (snd (QueryParam c name)) = r c"
  "store (snd (QueryParam c name)) = store c"
  by (simp_all add: QueryParam_def split: option.splits)

lemma csrf_creator_keeps [simp]:
  "w (snd (csrf_creator proc c)) = w c" "r (snd (csrf_creator proc c)) = r c"
  "store (snd (csrf_creator proc c)) = store c"
  by (simp_all add: csrf_creator_def csrfTokenFromQuery_def csrfTokenFromForm_def
      csrfTokenFromHeader_def Let_def case_prod_beta)

lemma csrf_creator_lookup:
  "fst (csrf_creator proc c) =
     (if csrf_lookup proc c = []
      then Inl (if proc ! 0 = ''query'' then ''missing csrf token in the query string''
                else if proc ! 0 = ''form'' then ''missing csrf token in the form string''
                else ''missing csrf token in the header string'')
      else Inr (csrf_lookup proc c))"
  by (simp add: csrf_creator_def csrf_lookup_def csrfTokenFromQuery_def csrfTokenFromForm_def
      csrfTokenFromHeader_def Let_def case_prod_beta)

lemma CSRFWithConfig_Returns:
  "CSRFWithConfig config = Returns h \<Longrightarrow>
   h = csrf_handler (csrf_defaults config)
         (csrf_creator (Split (TokenLookup (csrf_defaults config)) CHR '':''))"
  by (auto simp: CSRFWithConfig_def Let_def split: if_splits)

lemma String_response:
  "\<not> committed (w c) \<Longrightarrow>
   committed (w (snd (String c code s))) \<and> status (w (snd (String c code s))) = code \<and>
   body (w (snd (String c code s))) = body (w c) @ s"
  by (simp add: String_def Blob_def writeContentType_def Let_def WriteHeader_def Write_def)

lemma csrf_handler_unsafe:
  assumes "Method (r c) \<notin> {''GET'', ''HEAD'', ''OPTIONS'', ''TRACE''}"
  shows "csrf_handler cfg creator now u c =
     (case creator c of
        (Inl e, c1) \<Rightarrow> ServerError c1 400 e
      | (Inr clientToken, c1) \<Rightarrow>
          if snd (csrf_reference cfg u c) \<noteq> clientToken
          then ServerError c1 403 ''invalid csrf token''
          else csrf_issue cfg now (snd (csrf_reference cfg u c)) (fst (csrf_reference cfg u c)) c1)"
  using assms
  by (auto simp: csrf_handler_def validateCSRFToken_iff split: prod.splits sum.splits)


subsection \<open>Requests with an unsafe method\<close>

lemma ServerError_simps [simp]:
  "calls_Next (ServerError c code msg) = False"
  "hres_err (ServerError c code msg) = Some (Error msg)"
  "hres_ctx (ServerError c code msg) = snd (String c code msg)"
  by (simp_all add: ServerError_def)


lemma Split_form: "Split ''form:csrf'' CHR '':'' = [''form'', ''csrf'']"
  by simp




subsection \<open>An empty client token\<close>

lemma csrf_lookup_source: "csrf_lookup proc c = Header_Get (csrf_source proc c) (proc ! 1)"
  by (simp add: csrf_lookup_def csrf_source_def QueryParam_def FormValue_def GetHeader_def
      split: option.splits)

lemma Header_Get_empty_iff:
  "Header_Get m k = [] \<longleftrightarrow> m k = None \<or> m k = Some [] \<or> (\<exists>vs. m k = Some ([] # vs))"
  by (auto simp: Header_Get_def split: option.splits list.splits)

text \<open>
  Whatever the configured location is, when the value that the creator looks up is the
  empty string the creator fails, and on a request with an unsafe method the handler is
  \<open>ServerError(400, _)\<close> with the message of a missing token: it never reaches the
  comparison, also when the reference token is empty too. The value looked up is empty
  both when the field is absent and when it is present with an empty first value. For
  the query parameter and the form field the map looked up is the one of the request;
  for the header it is the header map of the response writer.
\<close>

lemma csrf_empty_lookup_is_BadRequest:
  fixes config :: CSRFConfig and c :: Context and u :: "8 word list" and now :: int
  defines "proc \<equiv> Split (TokenLookup (csrf_defaults config)) CHR '':''"
  assumes h: "CSRFWithConfig config = Returns h"
    and unsafe: "Method (r c) \<notin> {''GET'', ''HEAD'', ''OPTIONS'', ''TRACE''}"
    and empty: "csrf_source proc c (proc ! 1) = None \<or> csrf_source proc c (proc ! 1) = Some []
                \<or> (\<exists>vs. csrf_source proc c (proc ! 1) = Some ([] # vs))"
  shows "(\<exists>e. fst (csrf_creator proc c) = Inl e
            \<and> h now u c = ServerError (snd (csrf_creator proc c)) 400 e)
     \<and> \<not> calls_Next (h now u c) \<and> hres_err (h now u c) \<noteq> None
     \<and> (\<not> committed (w c) \<longrightarrow>
          committed (w (hres_ctx (h now u c))) \<and> status (w (hres_ctx (h now u c))) = 400
          \<and> status (w (hres_ctx (h now u c))) \<noteq> 403)"
proof -
  have "csrf_lookup proc c = []"
    using empty by (simp add: csrf_lookup_source Header_Get_empty_iff)
  then obtain e where e: "fst (csrf_creator proc c) = Inl e"
    by (simp add: csrf_creator_lookup)
  have "h = csrf_handler (csrf_defaults config) (csrf_creator proc)"
    unfolding proc_def using h by (rule CSRFWithConfig_Returns)
  then have eq: "h now u c = ServerError (snd (csrf_creator proc c)) 400 e"
    using e by (cases "csrf_creator proc c") (simp add: csrf_handler_unsafe [OF unsafe])
  have "committed (w (snd (csrf_creator proc c))) = committed (w c)"
    by simp
  then have "\<not> committed (w c) \<longrightarrow>
          committed (w (hres_ctx (h now u c))) \<and> status (w (hres_ctx (h now u c))) = 400"
    using String_response [of "snd (csrf_creator proc c)" 400 e] by (simp add: eq)
  then show ?thesis using e eq by auto
qed

lemma cfg_query_lookup: "TokenLookup (csrf_defaults cfg_query) = ''query:csrf''"
  by (simp add: csrf_defaults_def cfg_query_def CSRFDefaultConfig_def Let_def)

lemma CSRFWithConfig_cfg_query: "CSRFWithConfig cfg_query = Returns csrf_query"
  by (simp add: CSRFWithConfig_def Let_def cfg_query_lookup csrf_query_def)

lemma csrf_empty_query_token_example:
  "snd (csrf_reference (csrf_defaults cfg_query) u0 (newContext rw0 rq_empty_tokens)) = []
   \<and> URL_Query (r (newContext rw0 rq_empty_tokens)) ''csrf'' = Some [[]]
   \<and> \<not> calls_Next (csrf_query 0 u0 (newContext rw0 rq_empty_tokens))
   \<and> status (w (hres_ctx (csrf_query 0 u0 (newContext rw0 rq_empty_tokens)))) = 400"
proof -
  let ?c = "newContext rw0 rq_empty_tokens"
  let ?proc = "Split (TokenLookup (csrf_defaults cfg_query)) CHR '':''"
  have proc: "?proc = [''query'', ''csrf'']"
    by (simp add: cfg_query_lookup)
  have m: "Method (r ?c) \<notin> {''GET'', ''HEAD'', ''OPTIONS'', ''TRACE''}"
    by (simp add: rq_empty_tokens_def)
  have src: "csrf_source ?proc ?c (?proc ! 1) = Some ([] # [])"
    unfolding proc by (simp add: csrf_source_def newContext_def rq_empty_tokens_def)
  then have e: "csrf_source ?proc ?c (?proc ! 1) = None \<or> csrf_source ?proc ?c (?proc ! 1) = Some []
                \<or> (\<exists>vs. csrf_source ?proc ?c (?proc ! 1) = Some ([] # vs))"
    by blast
  have fresh: "\<not> committed (w ?c)" by (simp add: rw0_def)
  have "\<not> calls_Next (csrf_query 0 u0 ?c)
      \<and> status (w (hres_ctx (csrf_query 0 u0 ?c))) = 400"
    using csrf_empty_lookup_is_BadRequest [OF CSRFWithConfig_cfg_query m e, of 0 u0] fresh
    by blast
  moreover have "snd (csrf_reference (csrf_defaults cfg_query) u0 ?c) = []"
    by (simp add: csrf_reference_def Cookie_of_def csrf_defaults_def cfg_query_def
        CSRFDefaultConfig_def Let_def rq_empty_tokens_def)
  moreover have "URL_Query (r ?c) ''csrf'' = Some [[]]"
    by (simp add: rq_empty_tokens_def)
  ultimately show ?thesis by simp
qed

text \<open>
  With the default location \<open>header:X-CSRF-Token\<close>, on a response writer that has no
  such header, a request whose header \<open>X-CSRF-Token\<close> is empty is answered 400; so is
  a request whose header \<open>X-CSRF-Token\<close> equals the cookie, since the header of the
  request is not what \<open>csrfTokenFromHeader\<close> reads.
\<close>

lemma csrf_request_header_is_not_read:
  "r_Header (r (newContext rw0 rq_post_header_same)) ''X-CSRF-Token'' = Some [''abc'']
   \<and> trace (chain_run [mw_csrf, h_ok] rw0 rq_post_header_same serve) = [Invoked 0 0, Failed 0 0]
   \<and> status (w (chain_run [mw_csrf, h_ok] rw0 rq_post_header_same serve)) = 400
   \<and> body (w (chain_run [mw_csrf, h_ok] rw0 rq_post_header_same serve))
        = ''missing csrf token in the header string''
   \<and> status (w (chain_run [mw_csrf, h_ok] rw0 rq_post_empty_header serve)) = 400"
proof -
  have "r_Header (r (newContext rw0 rq_post_header_same)) ''X-CSRF-Token'' = Some [''abc'']"
    by (simp add: rq_post_header_same_def)
  moreover have "trace (chain_run [mw_csrf, h_ok] rw0 rq_post_header_same serve)
        = [Invoked 0 0, Failed 0 0]"
    and "status (w (chain_run [mw_csrf, h_ok] rw0 rq_post_header_same serve)) = 400"
    and "body (w (chain_run [mw_csrf, h_ok] rw0 rq_post_header_same serve))
        = ''missing csrf token in the header string''"
    and "status (w (chain_run [mw_csrf, h_ok] rw0 rq_post_empty_header serve)) = 400"
    by code_simp+
  ultimately show ?thesis by simp
qed

text \<open>
  Claim C10, with the default location \<open>header:X-CSRF-Token\<close>, at a \<open>POST\<close> request that
  carries the cookie \<open>_csrf=abc\<close> and the header \<open>X-CSRF-Token\<close> with the empty string as
  its value, in the chain of a middleware that sets \<open>X-CSRF-Token: zzz\<close> on the response,
  the CSRF middleware and a handler. \<open>csrfTokenFromHeader\<close> calls \<open>GetHeader\<close>, which reads
  the header map of the response writer, so the value found is \<open>zzz\<close> and not the empty
  token of the request: extraction succeeds, the comparison is made, and the request
  is answered 403 with \<open>invalid csrf token\<close>, not 400. When the middleware in front sets
  \<open>X-CSRF-Token: abc\<close>, the value of the cookie, the same request passes the comparison
  and the handler after the CSRF middleware is called.
\<close>

theorem csrf_empty_header_token_is_compared:
  "CSRF = Returns csrf_default
   \<and> Func mw_csrf = csrf_default 0 u0
   \<and> Method (r (newContext rw0 rq_post_empty_header)) = ''POST''
   \<and> Cookie_of (newContext rw0 rq_post_empty_header) ''_csrf'' = Inr ''abc''
   \<and> r_Header (r (newContext rw0 rq_post_empty_header)) ''X-CSRF-Token'' = Some [[]]
   \<and> trace (chain_run [mw_token_header ''zzz'', mw_csrf, h_ok] rw0 rq_post_empty_header serve)
        = [Invoked 0 0, Invoked 1 1, Failed 1 1]
   \<and> status (w (chain_run [mw_token_header ''zzz'', mw_csrf, h_ok] rw0 rq_post_empty_header serve))
        = 403
   \<and> body (w (chain_run [mw_token_header ''zzz'', mw_csrf, h_ok] rw0 rq_post_empty_header serve))
        = ''invalid csrf token''
   \<and> trace (chain_run [mw_token_header ''abc'', mw_csrf, h_ok] rw0 rq_post_empty_header serve)
        = [Invoked 0 0, Invoked 1 1, Invoked 2 2]"
proof -
  have "CSRF = Returns csrf_default"
    by (simp add: CSRF_def CSRFWithConfig_def Let_def csrf_default_def csrf_defaults_def
        CSRFDefaultConfig_def HeaderXCSRFToken_def)
  moreover have "Func mw_csrf = csrf_default 0 u0"
    by (simp add: mw_csrf_def)
  moreover have "Method (r (newContext rw0 rq_post_empty_header)) = ''POST''"
    and "Cookie_of (newContext rw0 rq_post_empty_header) ''_csrf'' = Inr ''abc''"
    and "r_Header (r (newContext rw0 rq_post_empty_header)) ''X-CSRF-Token'' = Some [[]]"
    by (simp_all add: rq_post_empty_header_def rq_post_def Cookie_of_def)
  moreover have
    "trace (chain_run [mw_token_header ''zzz'', mw_csrf, h_ok] rw0 rq_post_empty_header serve)
        = [Invoked 0 0, Invoked 1 1, Failed 1 1]"
    and "status (w (chain_run [mw_token_header ''zzz'', mw_csrf, h_ok] rw0 rq_post_empty_header
           serve)) = 403"
    and "body (w (chain_run [mw_token_header ''zzz'', mw_csrf, h_ok] rw0 rq_post_empty_header
           serve)) = ''invalid csrf token''"
    and "trace (chain_run [mw_token_header ''abc'', mw_csrf, h_ok] rw0 rq_post_empty_header serve)
        = [Invoked 0 0, Invoked 1 1, Invoked 2 2]"
    by code_simp+
  ultimately show ?thesis by simp
qed

subsection \<open>The allowed path\<close>

text \<open>
  The expiry of the cookie is the time of the call plus the configured max-age, as
  long as the max-age in nanoseconds fits 64 bits (about 292 years).
\<close>

lemma cookie_expiry_default: "cookie_expiry now 28800 = now + 28800 * 1000000000"
  by (simp add: cookie_expiry_def)

lemma cookie_expiry_in_range:
  assumes "- 9223372036 \<le> sint m" "sint m \<le> 9223372036"
  shows "cookie_expiry now m = now + sint m * 1000000000"
proof -
  have s: "sint (1000000000 :: 64 word) = 1000000000" by simp
  have "sint (m * 1000000000) = signed_take_bit 63 (sint m * 1000000000)"
    using sint_word_ariths(3) [of m 1000000000] by (simp add: s)
  also have "\<dots> = sint m * 1000000000"
    using assms by (intro signed_take_bit_int_eq_self) simp_all
  finally show ?thesis by (simp add: cookie_expiry_def)
qed







subsection \<open>The length of a fresh token\<close>









section \<open>Properties of the access loggers\<close>

lemma chain_finished:
  "\<not> panicked (Next hs c) \<longrightarrow> intercept (Next hs c) \<or> int (length hs) \<le> index (Next hs c)"
  "\<not> panicked (for_loop hs n c) \<longrightarrow>
     intercept (for_loop hs n c) \<or> int (length hs) \<le> index (for_loop hs n c)"
  "True \<or> P (invoke hs c h)"
proof (induct hs c and hs n c and hs c h rule: chain_induct)
  case (Next hs c)
  then show ?case by (simp add: Next.simps)
next
  case (stop hs n c)
  then show ?case by (auto simp: for_loop_stop)
next
  case (neg hs n c)
  then show ?case by (simp add: for_loop_neg)
next
  case (step hs n c c0 err c1 c2)
  then show ?case by (auto simp: for_loop_step [OF step(1-4,6,7)])
qed simp_all

lemma adopt_self [simp]: "adopt c c = c"
  by (simp add: adopt_def)

text \<open>
  A chain whose first handler calls \<open>Next()\<close> and then, without failing, appends one
  line to the sink: the line is computed from the context that the rest of the chain
  leaves, and nothing is called after it.
\<close>

lemma wrapper_first_run:
  assumes L: "\<And>c. Func L c = CallNext c (\<lambda>c1. Done None (emit (sev c1) (line c1) c1))"
    and np: "\<not> panicked (chain_run (L # hs) rw rq serve)"
  shows "\<exists>cA. chain_run (L # hs) rw rq serve
           = cA\<lparr>sink := sink cA @ [(sev cA, line cA)], index := index cA + 1\<rparr>"
proof -
  let ?hs = "L # hs"
  define c0 where "c0 = newContext rw rq"
  define cL where "cL = c0\<lparr>index := index c0 + 1, nexts := Suc (nexts c0)\<rparr>"
  define cT where "cT = cL\<lparr>trace := trace cL @ [Invoked 0 (index cL)]\<rparr>"
  define cA where "cA = Next ?hs cT"
  define cB where "cB = emit (sev cA) (line cA) cA"
  have run: "chain_run ?hs rw rq serve =
      (let c1 = Next ?hs c0 in if panicked c1 then c1 else c1)"
    by (simp add: chain_run_def serve_def c0_def Let_def)
  have idx: "index cL = 0" "\<not> intercept cL" "nexts c0 = 0"
    by (simp_all add: cL_def c0_def)
  have inv: "invoke ?hs cT (Func (?hs ! nat (index cL)) cT)
      = (if panicked cA then (None, cA) else (None, cB))"
    by (simp add: idx L cA_def cB_def Let_def emit_def adopt_def)
  have nx: "Next ?hs c0 = for_loop ?hs 0 cL"
    by (simp add: Next.simps cL_def c0_def)
  have step: "for_loop ?hs 0 cL = (if panicked c1 then c1 else for_loop ?hs 0 (c1\<lparr>index := index c1 + 1\<rparr>))"
    if "invoke ?hs cT (Func (?hs ! nat (index cL)) cT) = (None, c1)" for c1
  proof (rule for_loop_step)
    show "index cL < int (length ?hs)" by (simp add: idx)
    show "\<not> intercept cL" by (rule idx)
    show "0 \<le> index cL" by (simp add: idx)
    show "cT = cL\<lparr>trace := trace cL @ [Invoked 0 (index cL)]\<rparr>" by (rule cT_def)
    show "invoke ?hs cT (Func (?hs ! nat (index cL)) cT) = (None, c1)" by (rule that)
    show "c1 = (if None \<noteq> (None :: error option)
                then c1\<lparr>intercept := True, trace := trace c1 @ [Failed 0 (index cL)]\<rparr> else c1)"
      by simp
  qed
  show ?thesis
  proof (cases "panicked cA")
    case True
    then have "for_loop ?hs 0 cL = cA"
      using step [of cA] by (simp add: inv)
    with True np show ?thesis by (simp add: run nx)
  next
    case False
    have fin: "intercept cA \<or> int (length ?hs) \<le> index cA"
      using chain_finished(1) [of ?hs cT] False by (simp add: cA_def)
    have npB: "\<not> panicked cB" using False by (simp add: cB_def emit_def)
    have "Next ?hs c0 = for_loop ?hs 0 (cB\<lparr>index := index cB + 1\<rparr>)"
      unfolding nx using step [of cB] False npB by (simp add: inv)
    also have "\<dots> = cB\<lparr>index := index cB + 1\<rparr>"
      using fin by (intro for_loop_stop) (auto simp: cB_def emit_def)
    finally have "Next ?hs c0 = cA\<lparr>sink := sink cA @ [(sev cA, line cA)], index := index cA + 1\<rparr>"
      by (simp add: cB_def emit_def)
    then show ?thesis by (auto simp: run Let_def)
  qed
qed

lemma logger_tag_frame [simp]:
  "logger_tag_v1 (c\<lparr>sink := s, index := i\<rparr>) = logger_tag_v1 c"
  "logger_tag_v2 (c\<lparr>sink := s, index := i\<rparr>) = logger_tag_v2 c"
  "Response_Status (c\<lparr>sink := s, index := i\<rparr>) = Response_Status c"
  by (simp_all add: logger_tag_v1_def logger_tag_v2_def Response_Status_def Response_Size_def
      Response_Body_def RemoteIP_def fun_eq_iff)

lemma Logger_handler_v1_emit:
  "Logger_handler_v1 t c =
     CallNext c (\<lambda>c1. Done None
       (emit (if Response_Status c1 < 400 then Info else Warn)
             (ExecuteFuncString t (logger_tag_v1 c1)) c1))"
  by (simp add: Logger_handler_v1_def Let_def fun_eq_iff)

lemma Logger_handler_v2_emit:
  "Logger_handler_v2 (Some t) c =
     CallNext c (\<lambda>c1. Done None
       (emit (if Response_Status c1 = 200 then Trace else Warn)
             (ExecuteFuncString t (logger_tag_v2 c1)) c1))"
  by (simp add: Logger_handler_v2_def Let_def fun_eq_iff)

lemma logger_v1_last:
  assumes "\<not> panicked (chain_run (logger_chain_v1 t hs) rw rq serve)"
  shows "sink (chain_run (logger_chain_v1 t hs) rw rq serve) \<noteq> [] \<and>
     last (sink (chain_run (logger_chain_v1 t hs) rw rq serve)) =
       (if Response_Status (chain_run (logger_chain_v1 t hs) rw rq serve) < 400 then Info else Warn,
        ExecuteFuncString t (logger_tag_v1 (chain_run (logger_chain_v1 t hs) rw rq serve)))"
proof -
  obtain cA where "chain_run (logger_chain_v1 t hs) rw rq serve =
      cA\<lparr>sink := sink cA @ [(if Response_Status cA < 400 then Info else Warn,
                             ExecuteFuncString t (logger_tag_v1 cA))],
         index := index cA + 1\<rparr>"
    using wrapper_first_run [of "\<lparr>Func = Logger_handler_v1 t, IsMiddleware = True\<rparr>"
        "\<lambda>c1. if Response_Status c1 < 400 then Info else Warn"
        "\<lambda>c1. ExecuteFuncString t (logger_tag_v1 c1)" hs rw rq] assms
    unfolding logger_chain_v1_def by (auto simp: Logger_handler_v1_emit)
  then show ?thesis by simp
qed

lemma logger_v2_last:
  assumes "\<not> panicked (chain_run (logger_chain_v2 t hs) rw rq serve)"
  shows "sink (chain_run (logger_chain_v2 t hs) rw rq serve) \<noteq> [] \<and>
     last (sink (chain_run (logger_chain_v2 t hs) rw rq serve)) =
       (if Response_Status (chain_run (logger_chain_v2 t hs) rw rq serve) = 200 then Trace else Warn,
        ExecuteFuncString t (logger_tag_v2 (chain_run (logger_chain_v2 t hs) rw rq serve)))"
proof -
  obtain cA where "chain_run (logger_chain_v2 t hs) rw rq serve =
      cA\<lparr>sink := sink cA @ [(if Response_Status cA = 200 then Trace else Warn,
                             ExecuteFuncString t (logger_tag_v2 cA))],
         index := index cA + 1\<rparr>"
    using wrapper_first_run [of "\<lparr>Func = Logger_handler_v2 (Some t), IsMiddleware = True\<rparr>"
        "\<lambda>c1. if Response_Status c1 = 200 then Trace else Warn"
        "\<lambda>c1. ExecuteFuncString t (logger_tag_v2 c1)" hs rw rq] assms
    unfolding logger_chain_v2_def by (auto simp: Logger_handler_v2_emit)
  then show ?thesis by simp
qed

text \<open>
  Claim C7. Put a logger first in any chain and let the chain run to its end without
  a panic. The last line handed to the logging backend is the template rendered on
  the final request and response, and its severity is chosen by the final status:
  in the variant with a threshold, informational below 400 and warning from 400 on;
  in the other variant, trace at exactly 200 and warning otherwise. So at status 200
  each variant uses the lower of its two severities, and at 404 and 500 both warn.
\<close>

theorem logger_severity_by_status:
  fixes t :: Template and hs :: "HandlerFunc list" and rw :: response and rq :: request
  defines "run1 \<equiv> chain_run (logger_chain_v1 t hs) rw rq serve"
    and "run2 \<equiv> chain_run (logger_chain_v2 t hs) rw rq serve"
  shows "(\<not> panicked run1 \<longrightarrow>
            sink run1 \<noteq> []
            \<and> snd (last (sink run1)) = ExecuteFuncString t (logger_tag_v1 run1)
            \<and> (Response_Status run1 < 400 \<longrightarrow> fst (last (sink run1)) = Info)
            \<and> (400 \<le> Response_Status run1 \<longrightarrow> fst (last (sink run1)) = Warn)
            \<and> (Response_Status run1 = 200 \<longrightarrow>
                  severity_rank (fst (last (sink run1))) < severity_rank Warn)
            \<and> (Response_Status run1 = 404 \<or> Response_Status run1 = 500 \<longrightarrow>
                  fst (last (sink run1)) = Warn))
     \<and> (\<not> panicked run2 \<longrightarrow>
            sink run2 \<noteq> []
            \<and> snd (last (sink run2)) = ExecuteFuncString t (logger_tag_v2 run2)
            \<and> (Response_Status run2 = 200 \<longrightarrow> fst (last (sink run2)) = Trace)
            \<and> (Response_Status run2 \<noteq> 200 \<longrightarrow> fst (last (sink run2)) = Warn)
            \<and> (Response_Status run2 = 200 \<longrightarrow>
                  severity_rank (fst (last (sink run2))) < severity_rank Warn)
            \<and> (Response_Status run2 = 404 \<or> Response_Status run2 = 500 \<longrightarrow>
                  fst (last (sink run2)) = Warn))"
proof -
  have 1: "\<not> panicked run1 \<Longrightarrow> sink run1 \<noteq> [] \<and> last (sink run1) =
       (if Response_Status run1 < 400 then Info else Warn, ExecuteFuncString t (logger_tag_v1 run1))"
    unfolding run1_def by (rule logger_v1_last)
  have 2: "\<not> panicked run2 \<Longrightarrow> sink run2 \<noteq> [] \<and> last (sink run2) =
       (if Response_Status run2 = 200 then Trace else Warn, ExecuteFuncString t (logger_tag_v2 run2))"
    unfolding run2_def by (rule logger_v2_last)
  show ?thesis
  proof (intro conjI impI)
    assume "\<not> panicked run1"
    note a = 1 [OF this]
    show "sink run1 \<noteq> []" using a by simp
    show "snd (last (sink run1)) = ExecuteFuncString t (logger_tag_v1 run1)" using a by simp
    show "fst (last (sink run1)) = Info" if "Response_Status run1 < 400" using a that by simp
    show "fst (last (sink run1)) = Warn" if "400 \<le> Response_Status run1" using a that by simp
    show "severity_rank (fst (last (sink run1))) < severity_rank Warn"
      if "Response_Status run1 = 200" using a that by simp
    show "fst (last (sink run1)) = Warn"
      if "Response_Status run1 = 404 \<or> Response_Status run1 = 500" using a that by auto
  next
    assume "\<not> panicked run2"
    note b = 2 [OF this]
    show "sink run2 \<noteq> []" using b by simp
    show "snd (last (sink run2)) = ExecuteFuncString t (logger_tag_v2 run2)" using b by simp
    show "fst (last (sink run2)) = Trace" if "Response_Status run2 = 200" using b that by simp
    show "fst (last (sink run2)) = Warn" if "Response_Status run2 \<noteq> 200" using b that by simp
    show "severity_rank (fst (last (sink run2))) < severity_rank Warn"
      if "Response_Status run2 = 200" using b that by simp
    show "fst (last (sink run2)) = Warn"
      if "Response_Status run2 = 404 \<or> Response_Status run2 = 500" using b that by auto
  qed
qed

lemma NewTemplate_line: "fasttemplate_NewTemplate ''${method} ${url} -> ${status}.'' = Inr t_line"
  by (simp add: fasttemplate_NewTemplate_def t_line_def)

theorem logger_severity_by_status_witness:
  "fst (last (sink (chain_run (logger_chain_v1 t_line [h_status 200]) rw0 rq0 serve))) = Info
   \<and> fst (last (sink (chain_run (logger_chain_v1 t_line [h_status 404]) rw0 rq0 serve))) = Warn
   \<and> fst (last (sink (chain_run (logger_chain_v2 t_line [h_status 200]) rw0 rq0 serve))) = Trace
   \<and> fst (last (sink (chain_run (logger_chain_v2 t_line [h_status 500]) rw0 rq0 serve))) = Warn"
proof -
  have a: "\<not> panicked (chain_run (logger_chain_v1 t_line [h_status 200]) rw0 rq0 serve)"
    "Response_Status (chain_run (logger_chain_v1 t_line [h_status 200]) rw0 rq0 serve) = 200"
    by code_simp+
  have b: "\<not> panicked (chain_run (logger_chain_v1 t_line [h_status 404]) rw0 rq0 serve)"
    "Response_Status (chain_run (logger_chain_v1 t_line [h_status 404]) rw0 rq0 serve) = 404"
    by code_simp+
  have c: "\<not> panicked (chain_run (logger_chain_v2 t_line [h_status 200]) rw0 rq0 serve)"
    "Response_Status (chain_run (logger_chain_v2 t_line [h_status 200]) rw0 rq0 serve) = 200"
    by code_simp+
  have d: "\<not> panicked (chain_run (logger_chain_v2 t_line [h_status 500]) rw0 rq0 serve)"
    "Response_Status (chain_run (logger_chain_v2 t_line [h_status 500]) rw0 rq0 serve) = 500"
    by code_simp+
  have "fst (last (sink (chain_run (logger_chain_v1 t_line [h_status 200]) rw0 rq0 serve))) = Info"
    using logger_severity_by_status [of t_line "[h_status 200]" rw0 rq0] a by simp
  moreover
  have "fst (last (sink (chain_run (logger_chain_v1 t_line [h_status 404]) rw0 rq0 serve))) = Warn"
    using logger_severity_by_status [of t_line "[h_status 404]" rw0 rq0] b by simp
  moreover
  have "fst (last (sink (chain_run (logger_chain_v2 t_line [h_status 200]) rw0 rq0 serve))) = Trace"
    using logger_severity_by_status [of t_line "[h_status 200]" rw0 rq0] c by simp
  moreover
  have "fst (last (sink (chain_run (logger_chain_v2 t_line [h_status 500]) rw0 rq0 serve))) = Warn"
    using logger_severity_by_status [of t_line "[h_status 500]" rw0 rq0] d by simp
  ultimately show ?thesis by simp
qed

lemma logger_line_example:
  "sink (chain_run (logger_chain_v1 t_line [h_status 404]) rw0 rq0 serve)
     = [(Warn, ''GET / -> 404.'')]"
  by code_simp

lemma LoggerWithConfig_v1_fatal:
  assumes "NewTemplate (if Format config = [] then Format DefaultLoggerConfig_v1 else Format config)
             = Inl err"
  shows "LoggerWithConfig_v1 NewTemplate config
           = FatalExit (''unexpected error when parsing template: '' @ err)"
proof (cases "Format config = []")
  case True
  with assms have "NewTemplate (Format DefaultLoggerConfig_v1) = Inl err" by simp
  with True show ?thesis by (simp add: LoggerWithConfig_v1_def Let_def)
next
  case False
  with assms have "NewTemplate (Format config) = Inl err" by simp
  with False show ?thesis by (simp add: LoggerWithConfig_v1_def Let_def)
qed

lemma LoggerWithConfig_v2_returns:
  "\<exists>lg f. LoggerWithConfig_v2 NewTemplate config = Returns (lg, \<lparr>Func = f, IsMiddleware = True\<rparr>)"
  by (simp add: LoggerWithConfig_v2_def Let_def)

text \<open>
  Claim C8, at the format \<open>${url\<close>, which has no closing \<open>}\<close> and fails to parse. The
  constructor of part_001 ends the process. The constructor of part_002 returns a
  handler built on the nil template: in a chain, the handler after it is called and
  answers the request, and then the logger panics.
\<close>

theorem LoggerWithConfig_v2_survives_bad_template:
  "fasttemplate_NewTemplate (Format cfg_bad_format) = Inl ''Cannot find end tag''
   \<and> LoggerWithConfig_v1 fasttemplate_NewTemplate cfg_bad_format
        = FatalExit ''unexpected error when parsing template: Cannot find end tag''
   \<and> LoggerWithConfig_v2 fasttemplate_NewTemplate cfg_bad_format
        = Returns (\<lparr>lg_level = 3, lg_enabled = True\<rparr>,
                   \<lparr>Func = Logger_handler_v2 None, IsMiddleware = True\<rparr>)
   \<and> trace (chain_run [\<lparr>Func = Logger_handler_v2 None, IsMiddleware = True\<rparr>, h_status 200]
               rw0 rq0 serve) = [Invoked 0 0, Invoked 1 1]
   \<and> status (w (chain_run [\<lparr>Func = Logger_handler_v2 None, IsMiddleware = True\<rparr>, h_status 200]
               rw0 rq0 serve)) = 200
   \<and> panicked (chain_run [\<lparr>Func = Logger_handler_v2 None, IsMiddleware = True\<rparr>, h_status 200]
               rw0 rq0 serve)"
proof -
  have p: "fasttemplate_NewTemplate (Format cfg_bad_format) = Inl ''Cannot find end tag''"
    by (simp add: fasttemplate_NewTemplate_def cfg_bad_format_def)
  have "LoggerWithConfig_v1 fasttemplate_NewTemplate cfg_bad_format
        = FatalExit ''unexpected error when parsing template: Cannot find end tag''"
    using p by (simp add: LoggerWithConfig_v1_def Let_def cfg_bad_format_def)
  moreover have "LoggerWithConfig_v2 fasttemplate_NewTemplate cfg_bad_format
        = Returns (\<lparr>lg_level = 3, lg_enabled = True\<rparr>,
                   \<lparr>Func = Logger_handler_v2 None, IsMiddleware = True\<rparr>)"
    using p by (simp add: LoggerWithConfig_v2_def Let_def cfg_bad_format_def)
  moreover have "trace (chain_run [\<lparr>Func = Logger_handler_v2 None, IsMiddleware = True\<rparr>, h_status 200]
               rw0 rq0 serve) = [Invoked 0 0, Invoked 1 1]"
    and "status (w (chain_run [\<lparr>Func = Logger_handler_v2 None, IsMiddleware = True\<rparr>, h_status 200]
               rw0 rq0 serve)) = 200"
    and "panicked (chain_run [\<lparr>Func = Logger_handler_v2 None, IsMiddleware = True\<rparr>, h_status 200]
               rw0 rq0 serve)"
    by code_simp+
  ultimately show ?thesis using p by simp
qed

end
